theory Spec2Isabelle
  imports Main
begin

section \<open>Configuration values\<close>

text \<open>
  A configuration is a JavaScript value built from JSON data. Objects are association
  lists of their own enumerable properties in insertion order, with pairwise distinct
  keys; keys that are array indices keep their place in that order. Every object and
  array is taken to have its standard prototype, of which only the accessor
  \<open>__proto__\<close> is modelled: a prototype that an assignment to \<open>__proto__\<close> installs
  is not tracked. Numbers are integers. \<open>JUndefined\<close> also stands for an absent array
  element.
\<close>

datatype jv =
    JUndefined
  | JNull
  | JBool bool
  | JNum int
  | JStr string
  | JArr "jv list"
  | JObj "(string \<times> jv) list"

text \<open>
  A thrown error: \<open>TypeError\<close> for the ones raised by the resolver's guards and by
  the engine (property access on null or undefined, calling a non-function), \<open>Error\<close>
  for the ones raised by the external collaborators. Both carry the message.
\<close>

datatype error = TypeError string | Error string

fun message :: "error \<Rightarrow> string" where
  "message (TypeError m) = m"
| "message (Error m) = m"

fun append_message :: "error \<Rightarrow> string \<Rightarrow> error" where
  "append_message (TypeError m) s = TypeError (m @ s)"
| "append_message (Error m) s = Error (m @ s)"

fun typeof :: "jv \<Rightarrow> string" where
  "typeof JUndefined = ''undefined''"
| "typeof JNull = ''object''"
| "typeof (JBool _) = ''boolean''"
| "typeof (JNum _) = ''number''"
| "typeof (JStr _) = ''string''"
| "typeof (JArr _) = ''object''"
| "typeof (JObj _) = ''object''"

fun isArray :: "jv \<Rightarrow> bool" where
  "isArray (JArr _) = True"
| "isArray _ = False"

fun isObject :: "jv \<Rightarrow> bool" where
  "isObject (JObj _) = True"
| "isObject _ = False"

text \<open>Truthiness, as used by \<open>!x\<close>, \<open>x || y\<close> and \<open>if (x)\<close>.\<close>

fun truthy :: "jv \<Rightarrow> bool" where
  "truthy JUndefined = False"
| "truthy JNull = False"
| "truthy (JBool b) = b"
| "truthy (JNum n) = (n \<noteq> 0)"
| "truthy (JStr s) = (s \<noteq> [])"
| "truthy (JArr _) = True"
| "truthy (JObj _) = True"

text \<open>Values whose \<open>typeof\<close> is not \<open>object\<close>.\<close>

definition isPrim :: "jv \<Rightarrow> bool" where
  "isPrim v = (typeof v \<noteq> ''object'')"

subsection \<open>Property keys\<close>

text \<open>The decimal property key of an array index.\<close>

definition digit :: "nat \<Rightarrow> char" where
  "digit n = ''0123456789'' ! n"

function dec :: "nat \<Rightarrow> string" where
  "dec n = (if n < 10 then [digit n] else dec (n div 10) @ [digit (n mod 10)])"
  by pat_completeness auto
termination
  by (relation "measure id") auto

declare dec.simps [simp del]

definition isDigit :: "char \<Rightarrow> bool" where
  "isDigit c = (c \<in> set ''0123456789'')"

definition digitVal :: "char \<Rightarrow> nat" where
  "digitVal c = of_char c - 48"

text \<open>A key is an array index when it is a canonical decimal numeral.\<close>

definition parseIndex :: "string \<Rightarrow> nat option" where
  "parseIndex k =
     (if k \<noteq> [] \<and> list_all isDigit k \<and> (k = ''0'' \<or> hd k \<noteq> CHR ''0'')
      then Some (foldl (\<lambda>a c. 10 * a + digitVal c) 0 k) else None)"

subsection \<open>Property access\<close>

definition getOwn :: "(string \<times> jv) list \<Rightarrow> string \<Rightarrow> jv" where
  "getOwn kvs k = (case map_of kvs k of None \<Rightarrow> JUndefined | Some v \<Rightarrow> v)"

text \<open>\<open>xs[i]\<close> on an array: \<open>undefined\<close> out of range.\<close>

definition indexAt :: "jv list \<Rightarrow> nat \<Rightarrow> jv" where
  "indexAt xs i = (if i < length xs then xs ! i else JUndefined)"

text \<open>
  \<open>x[k]\<close> for a string key: a TypeError on \<open>null\<close> and \<open>undefined\<close>. The key
  \<open>__proto__\<close>, when it is not an own property, reads the prototype through the
  inherited getter: an object without enumerable properties, which the empty object
  stands for, and for an array the empty array \<open>Array.prototype\<close>.
\<close>

fun getProp :: "jv \<Rightarrow> string \<Rightarrow> error + jv" where
  "getProp JUndefined k = Inl (TypeError (''Cannot read property '' @ k @ '' of undefined''))"
| "getProp JNull k = Inl (TypeError (''Cannot read property '' @ k @ '' of null''))"
| "getProp (JObj kvs) k =
     Inr (if k = ''__proto__'' \<and> map_of kvs k = None then JObj [] else getOwn kvs k)"
| "getProp (JArr xs) k =
     Inr (if k = ''__proto__'' then JArr []
          else if k = ''length'' then JNum (int (length xs))
          else case parseIndex k of None \<Rightarrow> JUndefined | Some i \<Rightarrow> indexAt xs i)"
| "getProp (JStr s) k =
     Inr (if k = ''__proto__'' then JObj []
          else if k = ''length'' then JNum (int (length s))
          else case parseIndex k of None \<Rightarrow> JUndefined
               | Some i \<Rightarrow> if i < length s then JStr [s ! i] else JUndefined)"
| "getProp (JBool _) k = Inr (if k = ''__proto__'' then JObj [] else JUndefined)"
| "getProp (JNum _) k = Inr (if k = ''__proto__'' then JObj [] else JUndefined)"

text \<open>\<open>x[i]\<close> for a number \<open>i\<close>, on a value that is neither \<open>null\<close> nor \<open>undefined\<close>.\<close>

fun getIndex :: "jv \<Rightarrow> nat \<Rightarrow> jv" where
  "getIndex (JArr xs) i = indexAt xs i"
| "getIndex (JObj kvs) i = getOwn kvs (dec i)"
| "getIndex (JStr s) i = (if i < length s then JStr [s ! i] else JUndefined)"
| "getIndex _ i = JUndefined"

text \<open>\<open>o[k] = v\<close> on an object: an existing key keeps its place, a new one goes last.\<close>

fun setOwn :: "(string \<times> jv) list \<Rightarrow> string \<Rightarrow> jv \<Rightarrow> (string \<times> jv) list" where
  "setOwn [] k v = [(k, v)]"
| "setOwn ((k', v') # kvs) k v =
     (if k' = k then (k, v) # kvs else (k', v') # setOwn kvs k v)"

definition deleteOwn :: "(string \<times> jv) list \<Rightarrow> string \<Rightarrow> (string \<times> jv) list" where
  "deleteOwn kvs k = filter (\<lambda>(k', _). k' \<noteq> k) kvs"

text \<open>\<open>xs[i] = v\<close> on an array: past the end the array is extended, the gap absent.\<close>

definition setIndex :: "jv list \<Rightarrow> nat \<Rightarrow> jv \<Rightarrow> jv list" where
  "setIndex xs i v =
     (if i < length xs then xs[i := v]
      else xs @ replicate (i - length xs) JUndefined @ [v])"

text \<open>\<open>[].concat(x)\<close>: an array is spread, any other value is appended.\<close>

fun concatJs :: "jv list \<Rightarrow> jv \<Rightarrow> jv list" where
  "concatJs dst (JArr xs) = dst @ xs"
| "concatJs dst x = dst @ [x]"

text \<open>
  \<open>a === b\<close>. On primitives this is equality of values. Two objects or arrays are
  compared structurally here, where JavaScript compares references.
\<close>

definition strictEq :: "jv \<Rightarrow> jv \<Rightarrow> bool" where
  "strictEq a b = (a = b)"

section \<open>Deep merge\<close>

subsection \<open>Plugin entries\<close>

text \<open>
  \<open>dst.find((dstPlugin) => dstPlugin.name === plugin.name)\<close>: the first entry whose
  name equals the plugin's, \<open>undefined\<close> when there is none. Reading \<open>name\<close>
  off \<open>null\<close> or \<open>undefined\<close> throws.
\<close>

fun findPlugin :: "jv list \<Rightarrow> jv \<Rightarrow> error + jv" where
  "findPlugin [] plugin = Inr JUndefined"
| "findPlugin (d # ds) plugin =
     (case getProp d ''name'' of Inl e \<Rightarrow> Inl e
      | Inr dn \<Rightarrow> (case getProp plugin ''name'' of Inl e \<Rightarrow> Inl e
          | Inr pn \<Rightarrow> if strictEq dn pn then Inr d else findPlugin ds plugin))"

text \<open>\<open>dst.findIndex(...)\<close> with the same test; \<open>None\<close> stands for \<open>-1\<close>.\<close>

fun findPluginIndex :: "jv list \<Rightarrow> jv \<Rightarrow> error + nat option" where
  "findPluginIndex [] plugin = Inr None"
| "findPluginIndex (d # ds) plugin =
     (case getProp d ''name'' of Inl e \<Rightarrow> Inl e
      | Inr dn \<Rightarrow> (case getProp plugin ''name'' of Inl e \<Rightarrow> Inl e
          | Inr pn \<Rightarrow> if strictEq dn pn then Inr (Some 0)
              else (case findPluginIndex ds plugin of Inl e \<Rightarrow> Inl e
                    | Inr None \<Rightarrow> Inr None
                    | Inr (Some i) \<Rightarrow> Inr (Some (Suc i)))))"

text \<open>
  \<open>target.forEach((plugin) => { if (!dst.find(...)) { dst.push(plugin); } })\<close>: the
  test negates the entry that was found, so a falsy entry counts as not found.
\<close>

fun pushMissing :: "jv list \<Rightarrow> jv list \<Rightarrow> error + jv list" where
  "pushMissing [] dst = Inr dst"
| "pushMissing (plugin # ps) dst =
     (case findPlugin dst plugin of Inl e \<Rightarrow> Inl e
      | Inr found \<Rightarrow> pushMissing ps (if \<not> truthy found then dst @ [plugin] else dst))"

text \<open>
  \<open>src.forEach(...)\<close>: an entry of the same name is spliced out, then the plugin is
  put at the head of the array.
\<close>

fun replacePlugins :: "jv list \<Rightarrow> jv list \<Rightarrow> error + jv list" where
  "replacePlugins [] dst = Inr dst"
| "replacePlugins (plugin # ps) dst =
     (case findPluginIndex dst plugin of Inl e \<Rightarrow> Inl e
      | Inr None \<Rightarrow> replacePlugins ps (plugin # dst)
      | Inr (Some i) \<Rightarrow> replacePlugins ps (plugin # (take i dst @ drop (Suc i) dst)))"

text \<open>The plugin block; \<open>src.forEach\<close> exists on arrays only.\<close>

fun mergePlugins :: "jv \<Rightarrow> jv \<Rightarrow> jv list \<Rightarrow> error + jv list" where
  "mergePlugins (JArr ts) src dst =
     (case pushMissing ts dst of Inl e \<Rightarrow> Inl e
      | Inr dst' \<Rightarrow> (case src of
            JArr ss \<Rightarrow> replacePlugins ss dst'
          | JNull \<Rightarrow> Inl (TypeError ''Cannot read property forEach of null'')
          | _ \<Rightarrow> Inl (TypeError ''src.forEach is not a function'')))"
| "mergePlugins _ src dst = Inr dst"

subsection \<open>Own enumerable properties\<close>

text \<open>
  \<open>Object.keys(x)\<close> together with the values \<open>x[key]\<close>: a TypeError on
  \<open>null\<close> and \<open>undefined\<close>, the indices of an array or a string, nothing for
  a number or a boolean.
\<close>

fun ownEntries :: "jv \<Rightarrow> error + (string \<times> jv) list" where
  "ownEntries JUndefined = Inl (TypeError ''Cannot convert undefined or null to object'')"
| "ownEntries JNull = Inl (TypeError ''Cannot convert undefined or null to object'')"
| "ownEntries (JObj kvs) = Inr kvs"
| "ownEntries (JArr xs) = Inr (map (\<lambda>i. (dec i, xs ! i)) [0..<length xs])"
| "ownEntries (JStr s) = Inr (map (\<lambda>i. (dec i, JStr [s ! i])) [0..<length s])"
| "ownEntries _ = Inr []"

text \<open>
  The merge assigns into \<open>src\<close> and into objects nested in it. The model returns the
  state of \<open>src\<close> after the call next to the result. \<open>writeBackAll src i es\<close> is
  \<open>src\<close> with the values at the indices from \<open>i\<close> on in the states \<open>es\<close>, the
  states after the recursive calls on them; an index that \<open>src\<close> does not have is
  skipped.
\<close>

fun writeBack :: "jv \<Rightarrow> nat \<Rightarrow> jv \<Rightarrow> jv" where
  "writeBack (JObj kvs) i v =
     (if map_of kvs (dec i) = None then JObj kvs else JObj (setOwn kvs (dec i) v))"
| "writeBack (JArr xs) i v = (if i < length xs then JArr (xs[i := v]) else JArr xs)"
| "writeBack x i v = x"

fun writeBackAll :: "jv \<Rightarrow> nat \<Rightarrow> jv list \<Rightarrow> jv" where
  "writeBackAll src i [] = src"
| "writeBackAll src i (e # es) = writeBackAll (writeBack src i e) (Suc i) es"

subsection \<open>Assigning to the result\<close>

text \<open>
  The object branch builds \<open>dst\<close> from a fresh \<open>{}\<close> by assignments
  \<open>dst[key] = value\<close>. For the key \<open>__proto__\<close> such an assignment calls the setter
  inherited from \<open>Object.prototype\<close> and creates no own property. The setter is out
  of reach only once \<open>null\<close> has been assigned to \<open>__proto__\<close>, which the copy of
  \<open>target\<close>'s properties does when \<open>target\<close> has the own property
  \<open>__proto__: null\<close>; a later assignment then creates the property.
\<close>

definition copyOwn :: "jv \<Rightarrow> (string \<times> jv) list" where
  "copyOwn target =
     (case target of JObj kvs \<Rightarrow> filter (\<lambda>(k, v). k \<noteq> ''__proto__'') kvs | _ \<Rightarrow> [])"

definition setterGone :: "jv \<Rightarrow> bool" where
  "setterGone target =
     (case target of JObj kvs \<Rightarrow> map_of kvs ''__proto__'' = Some JNull | _ \<Rightarrow> False)"

definition assignKey :: "jv \<Rightarrow> (string \<times> jv) list \<Rightarrow> string \<Rightarrow> jv \<Rightarrow> (string \<times> jv) list" where
  "assignKey target dst k v =
     (if k = ''__proto__'' \<and> \<not> setterGone target then dst else setOwn dst k v)"

subsection \<open>The merge\<close>

text \<open>Measures for the termination of the merge.\<close>

fun rankH :: "jv \<Rightarrow> nat" where
  "rankH (JArr xs) = Suc (foldr max (map (\<lambda>x. if isPrim x then 0 else Suc (rankH x)) xs) 0)"
| "rankH (JObj kvs) = 3 + foldr max (map (\<lambda>(k, x). if isPrim x then 0 else Suc (rankH x)) kvs) 0"
| "rankH _ = 0"

definition maxG :: "jv list \<Rightarrow> nat" where
  "maxG xs = foldr max (map (\<lambda>x. if isPrim x then 0 else Suc (rankH x)) xs) 0"

definition rankMerge :: "jv \<Rightarrow> jv \<Rightarrow> nat \<times> nat" where
  "rankMerge target src =
     (if isPrim src then (if isArray target then (0, 2) else (5, 0)) else (rankH src, 0))"

text \<open>
  \<open>_deepMerge(target, src, combine, parentKey)\<close> with \<open>ul\<close> the resolver's
  \<open>_upgradeMergeList\<close>. The result is \<open>dst\<close> and the state of \<open>src\<close> after
  the call. \<open>mergeElements\<close> is the loop over \<open>Object.keys(src)\<close> of the array
  branch: it runs over the values \<open>src[srcIndex]\<close> and returns \<open>dst\<close> and the state
  of these values. \<open>mergeKeys\<close> is the loop over \<open>Object.keys(src)\<close> of the object
  branch: it runs over the entries of \<open>src\<close>, the keys with the values \<open>src[srcKey]\<close>,
  and returns the entries of \<open>dst\<close> and the state of those of \<open>src\<close>. The file is a
  module, hence strict: assigning to an index of a string throws.
\<close>

function deepMerge :: "jv list \<Rightarrow> jv \<Rightarrow> jv \<Rightarrow> bool \<Rightarrow> string option \<Rightarrow> error + (jv \<times> jv)"
  and mergeElements :: "jv list \<Rightarrow> jv \<Rightarrow> bool \<Rightarrow> string option \<Rightarrow> nat \<Rightarrow> jv list \<Rightarrow> jv list
        \<Rightarrow> error + (jv list \<times> jv list)"
  and mergeKeys :: "jv list \<Rightarrow> jv \<Rightarrow> bool \<Rightarrow> jv \<Rightarrow> (string \<times> jv) list \<Rightarrow> (string \<times> jv) list
        \<Rightarrow> error + ((string \<times> jv) list \<times> (string \<times> jv) list)"
where
  "deepMerge ul target src combine parentKey =
     (if isArray src \<or> isArray target then
        (let target' = (if truthy target then target else JArr []);
             dst0 = (case src of
                       JArr xs \<Rightarrow> if length xs > 1 then xs else concatJs [] target'
                     | _ \<Rightarrow> concatJs [] target');
             src' = (if typeof src \<noteq> ''object'' \<and> \<not> isArray src then JArr [src] else src)
         in case (if parentKey = Some ''plugins'' \<and> isArray target'
                  then mergePlugins target' src' dst0 else Inr dst0) of
              Inl e \<Rightarrow> Inl e
            | Inr dst1 \<Rightarrow>
               (case ownEntries src' of Inl e \<Rightarrow> Inl e
                | Inr ks \<Rightarrow>
                   (case mergeElements ul target' combine parentKey 0
                           (map (getIndex src') [0..<length ks]) dst1 of
                      Inl e \<Rightarrow> Inl e
                    | Inr (dst, es) \<Rightarrow>
                        Inr (JArr dst, if typeof src \<noteq> ''object'' \<and> \<not> isArray src then src
                                       else writeBackAll src 0 es))))
      else
        (let dst0 = copyOwn target
         in case ownEntries src of Inl e \<Rightarrow> Inl e
            | Inr entries \<Rightarrow>
               (case mergeKeys ul target combine src entries dst0 of
                  Inl e \<Rightarrow> Inl e
                | Inr (dst, entries') \<Rightarrow>
                    Inr (JObj dst, if isObject src then JObj entries' else src))))"
| "mergeElements ul target combine parentKey srcIndex [] dst = Inr (dst, [])"
| "mergeElements ul target combine parentKey srcIndex (srcElement # es) dst =
     (if typeof (indexAt dst srcIndex) = ''undefined'' then
        (case mergeElements ul target combine parentKey (Suc srcIndex) es
                (setIndex dst srcIndex srcElement) of
           Inl e \<Rightarrow> Inl e | Inr (dst', es') \<Rightarrow> Inr (dst', srcElement # es'))
      else if typeof srcElement = ''object'' then
        (if parentKey \<noteq> Some ''plugins'' then
           (case deepMerge ul (getIndex target srcIndex) srcElement combine parentKey of
              Inl e \<Rightarrow> Inl e
            | Inr (d, srcElement') \<Rightarrow>
               (case mergeElements ul target combine parentKey (Suc srcIndex) es
                       (setIndex dst srcIndex d) of
                  Inl e \<Rightarrow> Inl e | Inr (dst', es') \<Rightarrow> Inr (dst', srcElement' # es')))
         else
           (case mergeElements ul target combine parentKey (Suc srcIndex) es dst of
              Inl e \<Rightarrow> Inl e | Inr (dst', es') \<Rightarrow> Inr (dst', srcElement # es')))
      else
        (case mergeElements ul target combine parentKey (Suc srcIndex) es
                (if \<not> combine then setIndex dst srcIndex srcElement
                 else if srcElement \<notin> set dst then dst @ [srcElement] else dst) of
           Inl e \<Rightarrow> Inl e | Inr (dst', es') \<Rightarrow> Inr (dst', srcElement # es')))"
| "mergeKeys ul target combine src [] dst = Inr (dst, [])"
| "mergeKeys ul target combine src ((srcKey, v) # rest) dst =
     (if JStr srcKey \<in> set ul \<and> \<not> isArray v then
        (if typeof src = ''string'' then
           Inl (TypeError ''Cannot assign to read only property of string'')
         else
           (case getProp target srcKey of Inl e \<Rightarrow> Inl e
            | Inr t \<Rightarrow>
               (case deepMerge ul t (JArr [v]) True (Some srcKey) of Inl e \<Rightarrow> Inl e
                | Inr (d, v') \<Rightarrow>
                   (case mergeKeys ul target combine src rest (assignKey target dst srcKey d) of
                      Inl e \<Rightarrow> Inl e
                    | Inr (dst', rest') \<Rightarrow> Inr (dst', (srcKey, v') # rest')))))
      else
        (case getProp target srcKey of Inl e \<Rightarrow> Inl e
         | Inr t \<Rightarrow>
            if isArray v \<or> isArray t then
              (case deepMerge ul t v (JStr srcKey \<in> set ul) (Some srcKey) of Inl e \<Rightarrow> Inl e
               | Inr (d, v') \<Rightarrow>
                  (case mergeKeys ul target combine src rest (assignKey target dst srcKey d) of
                     Inl e \<Rightarrow> Inl e
                   | Inr (dst', rest') \<Rightarrow> Inr (dst', (srcKey, v') # rest')))
            else if typeof v \<noteq> ''object'' \<or> \<not> truthy v then
              (case mergeKeys ul target combine src rest (assignKey target dst srcKey v) of
                 Inl e \<Rightarrow> Inl e
               | Inr (dst', rest') \<Rightarrow> Inr (dst', (srcKey, v) # rest'))
            else
              (case deepMerge ul (if truthy t then t else JObj []) v combine (Some srcKey) of
                 Inl e \<Rightarrow> Inl e
               | Inr (d, v') \<Rightarrow>
                  (case mergeKeys ul target combine src rest (assignKey target dst srcKey d) of
                     Inl e \<Rightarrow> Inl e
                   | Inr (dst', rest') \<Rightarrow> Inr (dst', (srcKey, v') # rest')))))"
  by pat_completeness auto

termination
proof -
  have G_Cons: "maxG (x # xs) = max (if isPrim x then 0 else Suc (rankH x)) (maxG xs)" for x xs
    by (simp add: maxG_def)
  have G_Nil: "maxG [] = 0"
    by (simp add: maxG_def)
  have H_Arr: "rankH (JArr xs) = Suc (maxG xs)" for xs
    by (simp add: maxG_def)
  have H_Obj: "rankH (JObj kvs) = 3 + maxG (map snd kvs)" for kvs
    by (simp add: maxG_def comp_def case_prod_unfold)
  have G_tl: "maxG es < maxG (x # es) \<or> maxG es = maxG (x # es)" for x es
    by (simp add: G_Cons max_def)
  have G_mem: "x \<in> set xs \<Longrightarrow> \<not> isPrim x \<Longrightarrow> rankH x < maxG xs" for x xs
    by (induction xs) (auto simp: G_Cons max_def)
  have G_bound: "\<forall>x\<in>set xs. \<not> isPrim x \<longrightarrow> rankH x < n \<Longrightarrow> maxG xs \<le> n" for xs n
    by (induction xs) (auto simp: G_Cons G_Nil max_def)
  have own: "getOwn kvs k = JUndefined \<or> getOwn kvs k \<in> snd ` set kvs" for kvs k
    by (auto simp: getOwn_def split: option.splits dest: map_of_SomeD intro: rev_image_eqI)
  have G_Arr: "maxG (map (getIndex (JArr xs)) is) \<le> maxG xs" for xs "is"
  proof (rule G_bound, intro ballI impI)
    fix x assume "x \<in> set (map (getIndex (JArr xs)) is)" and np: "\<not> isPrim x"
    then obtain i where "x = indexAt xs i" by auto
    with np have "x \<in> set xs" by (auto simp: isPrim_def indexAt_def split: if_splits)
    with np show "rankH x < maxG xs" by (simp add: G_mem)
  qed
  have G_Obj: "maxG (map (getIndex (JObj kvs)) is) \<le> maxG (map snd kvs)" for kvs "is"
  proof (rule G_bound, intro ballI impI)
    fix x assume "x \<in> set (map (getIndex (JObj kvs)) is)" and np: "\<not> isPrim x"
    then obtain i where "x = getOwn kvs (dec i)" by auto
    with np own [of kvs "dec i"] have "x \<in> set (map snd kvs)" by (auto simp: isPrim_def)
    with np show "rankH x < maxG (map snd kvs)" by (simp add: G_mem)
  qed
  have elements:
    "((maxG (map (getIndex (if typeof src \<noteq> ''object'' \<and> \<not> isArray src then JArr [src] else src))
          [0..<length ks]), length ks), rankMerge target src) \<in> less_than <*lex*> less_than"
    if "isArray src \<or> isArray target"
      and "ownEntries (if typeof src \<noteq> ''object'' \<and> \<not> isArray src then JArr [src] else src) = Inr ks"
    for src target ks
  proof (cases src)
    case (JArr xs)
    then show ?thesis using G_Arr [of xs "[0..<length ks]"]
      by (simp add: rankMerge_def isPrim_def H_Arr del: rankH.simps getIndex.simps)
  next
    case (JObj kvs)
    then show ?thesis using G_Obj [of kvs "[0..<length ks]"]
      by (simp add: rankMerge_def isPrim_def H_Obj del: rankH.simps getIndex.simps)
  next
    case JNull
    then show ?thesis using that by simp
  qed (use that in \<open>auto simp: rankMerge_def isPrim_def G_Cons G_Nil indexAt_def\<close>)
  have keys:
    "((Suc (Suc (maxG (map snd b))), length b), rankMerge target src) \<in> less_than <*lex*> less_than"
    if "\<not> isArray src \<and> \<not> isArray target" and "ownEntries src = Inr b" for src target b
  proof (cases src)
    case (JObj kvs)
    then show ?thesis using that by (simp add: rankMerge_def isPrim_def H_Obj del: rankH.simps)
  next
    case (JStr s)
    have "maxG (map (\<lambda>i. JStr [s ! i]) is) = 0" for "is"
      by (induction "is") (auto simp: G_Cons G_Nil isPrim_def)
    then have "maxG (map snd (map (\<lambda>i. (dec i, JStr [s ! i])) [0..<length s])) = 0"
      by (simp add: comp_def)
    then show ?thesis using that JStr by (auto simp: rankMerge_def isPrim_def)
  qed (use that in \<open>auto simp: rankMerge_def isPrim_def G_Nil\<close>)
  have promote:
    "(rankMerge t (JArr [v]), Suc (Suc (maxG (v # vs))), n) \<in> less_than <*lex*> less_than"
    if "\<not> isArray v" for t v vs n
    using that
    by (auto simp: rankMerge_def isPrim_def H_Arr G_Cons G_Nil max_def simp del: rankH.simps)
  have child:
    "(rankMerge t v, Suc (Suc (maxG (v # vs))), n) \<in> less_than <*lex*> less_than"
    if "isArray v \<or> isArray t \<or> typeof v = ''object''" for t v vs n
    using that
    by (cases v) (auto simp: rankMerge_def isPrim_def G_Cons max_def simp del: rankH.simps)
  have child_array:
    "(rankMerge t v, Suc (Suc (maxG (v # vs))), n) \<in> less_than <*lex*> less_than"
    if "isArray v \<or> isArray t" for t v vs n
    using that by (intro child) auto
  have child_object:
    "(rankMerge t v, Suc (Suc (maxG (v # vs))), n) \<in> less_than <*lex*> less_than"
    if "typeof v = ''object''" for t v vs n
    using that by (intro child) auto
  have element:
    "(rankMerge t e, maxG (e # es), n) \<in> less_than <*lex*> less_than"
    if "typeof e = ''object''" for t e es n
    using that by (auto simp: rankMerge_def isPrim_def G_Cons max_def simp del: rankH.simps)
  show ?thesis
    apply (relation "inv_image (less_than <*lex*> less_than)
        (\<lambda>x. case x of
            Inl (ul, target, src, combine, pk) \<Rightarrow> rankMerge target src
          | Inr (Inl (ul, target, combine, pk, i, es, dst)) \<Rightarrow> (maxG es, length es)
          | Inr (Inr (ul, target, combine, src, entries, dst)) \<Rightarrow>
              (2 + maxG (map snd entries), length entries))")
    apply (simp_all add: G_tl promote child_array child_object element keys
        del: rankH.simps getIndex.simps)
    subgoal by (intro wf_inv_image wf_lex_prod wf_less_than)
    subgoal for target src parentKey x xa xb b ba
      using elements [of src target ba] by (auto simp del: rankH.simps getIndex.simps)
    done
qed

declare deepMerge.simps [simp del]

section \<open>The resolver\<close>

text \<open>
  The resolver data held by an instance: \<open>_defaultValues\<close>, \<open>_preValidate\<close>,
  \<open>_postValidate\<close> and \<open>_upgradeMergeList\<close>, the latter an array.
\<close>

record resolver =
  defaultValues :: jv
  preValidate :: jv
  postValidate :: jv
  upgradeMergeList :: "jv list"

text \<open>
  What the resolver calls and does not define, taken as parameters: the working
  directory, Node's \<open>path\<close> functions, \<open>require\<close>, reading a file as JSON with
  comments (\<open>fs.readFileSync\<close>, \<open>stripJsonComments\<close>, \<open>JSON.parse\<close>) and the two
  functions of typhonjs-object-util, \<open>validate(data, validationData, dataName)\<close>
  and \<open>safeSetAll(data, accessorValues, 'set-undefined', false)\<close>, the latter
  returning the state of \<open>data\<close> after the call.
\<close>

record env =
  cwd :: string
  isAbsolute :: "string \<Rightarrow> bool"
  pathJoin :: "string \<Rightarrow> string \<Rightarrow> string"
  pathResolve :: "string \<Rightarrow> string \<Rightarrow> string"
  pathDirname :: "string \<Rightarrow> string"
  pathExtname :: "string \<Rightarrow> string"
  require :: "string \<Rightarrow> error + jv"
  readJson :: "string \<Rightarrow> error + jv"
  validate :: "jv \<Rightarrow> jv \<Rightarrow> string \<Rightarrow> error option"
  safeSetAll :: "jv \<Rightarrow> jv \<Rightarrow> error + jv"

subsection \<open>Classifying a reference\<close>

text \<open>The class \<open>\w\<close> of a regular expression: letters, digits and the underscore.\<close>

definition isWordChar :: "char \<Rightarrow> bool" where
  "isWordChar c =
     (let n = (of_char c :: nat)
      in (65 \<le> n \<and> n \<le> 90) \<or> (97 \<le> n \<and> n \<le> 122) \<or> (48 \<le> n \<and> n \<le> 57) \<or> n = 95)"

text \<open>\<open>/\w|@/.test(s)\<close>: some character of \<open>s\<close> is a word character or \<open>@\<close>.\<close>

definition testWordOrAt :: "string \<Rightarrow> bool" where
  "testWordOrAt s = list_ex (\<lambda>c. isWordChar c \<or> c = CHR ''@'') s"

text \<open>\<open>s.charAt(0)\<close>: the empty string when \<open>s\<close> is empty.\<close>

definition charAt0 :: "string \<Rightarrow> string" where
  "charAt0 s = take 1 s"

definition isFilePath :: "env \<Rightarrow> string \<Rightarrow> bool" where
  "isFilePath E filePath = (isAbsolute E filePath \<or> \<not> testWordOrAt (charAt0 filePath))"

subsection \<open>Validation and defaults\<close>

definition preValidateConfig :: "env \<Rightarrow> resolver \<Rightarrow> jv \<Rightarrow> error option" where
  "preValidateConfig E r config =
     (if truthy (preValidate r) then validate E config (preValidate r) ''config'' else None)"

definition postValidateConfig :: "env \<Rightarrow> resolver \<Rightarrow> jv \<Rightarrow> error option" where
  "postValidateConfig E r config =
     (if truthy (postValidate r) then validate E config (postValidate r) ''config'' else None)"

definition setDefaultValues :: "env \<Rightarrow> resolver \<Rightarrow> jv \<Rightarrow> error + jv" where
  "setDefaultValues E r config =
     (if truthy (defaultValues r) then safeSetAll E config (defaultValues r) else Inr config)"

subsection \<open>Loading and applying extends\<close>

text \<open>
  A result of \<open>_applyExtends\<close> and \<open>_load\<close>: the loaded-chain record
  \<open>loadedConfigs\<close> after the call, also when the call throws, and the error or the
  value. \<open>None\<close> is a run that does not return.
\<close>

type_synonym outcome = "(string list \<times> (error + jv)) option"

fun stringOf :: "jv \<Rightarrow> string option" where
  "stringOf (JStr s) = Some s"
| "stringOf _ = None"

fun elements :: "jv \<Rightarrow> jv list" where
  "elements (JArr xs) = xs"
| "elements _ = []"

text \<open>
  The callback of the \<open>reduceRight\<close> in \<open>_applyExtends\<close>, with \<open>loadFn\<close> for
  \<open>this._load\<close>; \<open>resolveReference\<close> is the identifier it gives a reference that
  is a string. An absent \<open>relativeTo\<close> is the empty string. Node's \<open>path\<close>
  functions throw a TypeError on an argument that is not a string. Logging to the
  event bus is left out.
\<close>

definition resolveReference :: "env \<Rightarrow> string \<Rightarrow> string \<Rightarrow> string \<Rightarrow> string" where
  "resolveReference E filePath relativeTo p =
     (if isFilePath E p \<and> \<not> isAbsolute E p
      then pathJoin E (if relativeTo \<noteq> [] then relativeTo else pathDirname E filePath) p
      else p)"

definition extendsStep ::
  "(string \<Rightarrow> string \<Rightarrow> string list \<Rightarrow> outcome) \<Rightarrow> env \<Rightarrow> resolver \<Rightarrow> string \<Rightarrow> string
     \<Rightarrow> string list \<Rightarrow> jv \<Rightarrow> jv \<Rightarrow> outcome" where
  "extendsStep loadFn E r filePath relativeTo loadedConfigs previousValue parent =
     (case stringOf parent of
        None \<Rightarrow> Some (loadedConfigs, Inl (TypeError ''The path argument must be of type string''))
      | Some p \<Rightarrow>
         (let parentPath = resolveReference E filePath relativeTo p
          in if parentPath \<in> set loadedConfigs then Some (loadedConfigs, Inr previousValue)
             else
               (case loadFn parentPath relativeTo (loadedConfigs @ [parentPath]) of
                  None \<Rightarrow> None
                | Some (loaded, Inl e) \<Rightarrow> Some (loaded, Inl e)
                | Some (loaded, Inr target) \<Rightarrow>
                   (case deepMerge (upgradeMergeList r) target previousValue False None of
                      Inl e \<Rightarrow> Some (loaded, Inl e)
                    | Inr (dst, _) \<Rightarrow> Some (loaded, Inr dst)))))"

text \<open>
  \<open>configExtends.reduceRight(callback, config)\<close>: the rightmost reference is visited
  first, and a throw ends the walk.
\<close>

fun reduceExtends ::
  "(string \<Rightarrow> string \<Rightarrow> string list \<Rightarrow> outcome) \<Rightarrow> env \<Rightarrow> resolver \<Rightarrow> string \<Rightarrow> string
     \<Rightarrow> jv list \<Rightarrow> string list \<Rightarrow> jv \<Rightarrow> outcome" where
  "reduceExtends loadFn E r filePath relativeTo [] loadedConfigs config =
     Some (loadedConfigs, Inr config)"
| "reduceExtends loadFn E r filePath relativeTo (parent # ps) loadedConfigs config =
     (case reduceExtends loadFn E r filePath relativeTo ps loadedConfigs config of
        None \<Rightarrow> None
      | Some (loaded, Inl e) \<Rightarrow> Some (loaded, Inl e)
      | Some (loaded, Inr previousValue) \<Rightarrow>
          extendsStep loadFn E r filePath relativeTo loaded previousValue parent)"

text \<open>\<open>_applyExtends\<close>, with \<open>loadFn\<close> for \<open>this._load\<close>.\<close>

definition applyExtendsWith ::
  "(string \<Rightarrow> string \<Rightarrow> string list \<Rightarrow> outcome) \<Rightarrow> env \<Rightarrow> resolver \<Rightarrow> jv \<Rightarrow> string \<Rightarrow> string
     \<Rightarrow> string list \<Rightarrow> outcome" where
  "applyExtendsWith loadFn E r config filePath relativeTo loadedConfigs =
     (case getProp config ''extends'' of
        Inl e \<Rightarrow> Some (loadedConfigs, Inl e)
      | Inr ext \<Rightarrow>
          reduceExtends loadFn E r filePath relativeTo
            (if isArray ext then elements ext else [ext]) loadedConfigs config)"

text \<open>
  \<open>_load\<close>. It calls \<open>_applyExtends\<close>, which calls it back for every parent, for as
  long as loaded configurations name new parents: \<open>fuel\<close> bounds the depth of that
  nesting, and a run that needs more does not return.
\<close>

primrec load :: "nat \<Rightarrow> env \<Rightarrow> resolver \<Rightarrow> string \<Rightarrow> string \<Rightarrow> string list \<Rightarrow> outcome" where
  "load 0 E r filePath relativeTo loadedConfigs = None"
| "load (Suc fuel) E r filePath relativeTo loadedConfigs =
     (let resolvedPath = pathResolve E relativeTo filePath;
          dirname = (if isFilePath E filePath then pathDirname E resolvedPath else []);
          loaded = (if isFilePath E filePath
                    then (if pathExtname E resolvedPath = ''.js'' then require E resolvedPath
                          else readJson E resolvedPath)
                    else require E filePath)
      in case loaded of
           Inl e \<Rightarrow> Some (loadedConfigs, Inl e)
         | Inr config \<Rightarrow>
            (case preValidateConfig E r config of
               Some e \<Rightarrow> Some (loadedConfigs, Inl e)
             | None \<Rightarrow>
                if truthy config then
                  (case getProp config ''extends'' of
                     Inl e \<Rightarrow> Some (loadedConfigs, Inl e)
                   | Inr ext \<Rightarrow>
                       if truthy ext
                       then applyExtendsWith (load fuel E r) E r config filePath dirname
                              loadedConfigs
                       else Some (loadedConfigs, Inr config))
                else Some (loadedConfigs, Inr config)))"

definition applyExtends ::
  "nat \<Rightarrow> env \<Rightarrow> resolver \<Rightarrow> jv \<Rightarrow> string \<Rightarrow> string \<Rightarrow> string list \<Rightarrow> outcome" where
  "applyExtends fuel E r = applyExtendsWith (load fuel E r) E r"

subsection \<open>Resolving\<close>

text \<open>
  \<open>JSON.parse(JSON.stringify(x))\<close>: a deep copy in which an object loses the
  properties that are \<open>undefined\<close> and an array holds \<open>null\<close> for them.
\<close>

fun jsonCopy :: "jv \<Rightarrow> jv" where
  "jsonCopy (JArr xs) = JArr (map (\<lambda>x. if x = JUndefined then JNull else jsonCopy x) xs)"
| "jsonCopy (JObj kvs) =
     JObj (map (\<lambda>(k, v). (k, jsonCopy v)) (filter (\<lambda>(k, v). v \<noteq> JUndefined) kvs))"
| "jsonCopy v = v"

text \<open>\<open>loadedConfigs.join('\n')\<close>.\<close>

fun joinLines :: "string list \<Rightarrow> string" where
  "joinLines [] = []"
| "joinLines [x] = x"
| "joinLines (x # y # ys) = x @ [CHR 0x0A] @ joinLines (y # ys)"

definition referencedFrom :: "string list \<Rightarrow> string" where
  "referencedFrom loadedConfigs =
     [CHR 0x0A] @ ''Referenced from: '' @ [CHR 0x0A] @ joinLines loadedConfigs"

text \<open>
  \<open>delete o.extends; o.extends = loadedConfigs\<close> and \<open>o.plugins.reverse()\<close> on the
  merged configuration, an object or an array. A named property of an array is not
  part of the data model and is dropped.
\<close>

fun replaceExtends :: "jv \<Rightarrow> string list \<Rightarrow> jv" where
  "replaceExtends (JObj kvs) loadedConfigs =
     JObj (setOwn (deleteOwn kvs ''extends'') ''extends'' (JArr (map JStr loadedConfigs)))"
| "replaceExtends v loadedConfigs = v"

fun reversePlugins :: "jv \<Rightarrow> jv" where
  "reversePlugins (JObj kvs) =
     (case getOwn kvs ''plugins'' of
        JArr ps \<Rightarrow> JObj (setOwn kvs ''plugins'' (JArr (rev ps)))
      | _ \<Rightarrow> JObj kvs)"
| "reversePlugins v = v"

text \<open>\<open>_resolveExtends\<close>; the working directory is both file path and base.\<close>

definition resolveExtends :: "nat \<Rightarrow> env \<Rightarrow> resolver \<Rightarrow> jv \<Rightarrow> (error + jv) option" where
  "resolveExtends fuel E r config =
     (case getProp config ''extends'' of
        Inl e \<Rightarrow> Some (Inl e)
      | Inr ext \<Rightarrow>
          if \<not> truthy ext then Some (Inr (jsonCopy config))
          else
            (case applyExtends fuel E r config (cwd E) (cwd E) [] of
               None \<Rightarrow> None
             | Some (loadedConfigs, Inl err) \<Rightarrow>
                 Some (Inl (append_message err (referencedFrom loadedConfigs)))
             | Some (loadedConfigs, Inr resolvedConfig) \<Rightarrow>
                 Some (Inr (reversePlugins
                   (if length loadedConfigs > 0 then replaceExtends resolvedConfig loadedConfigs
                    else resolvedConfig)))))"

text \<open>\<open>resolve\<close>.\<close>

definition notAnObject :: "string \<Rightarrow> error" where
  "notAnObject name = TypeError ([CHR 0x27] @ name @ [CHR 0x27] @ '' is not an ''
     @ [CHR 0x27] @ ''object'' @ [CHR 0x27] @ ''.'')"

definition resolve :: "nat \<Rightarrow> env \<Rightarrow> resolver \<Rightarrow> jv \<Rightarrow> (error + jv) option" where
  "resolve fuel E r config =
     (if typeof config \<noteq> ''object'' then Some (Inl (notAnObject ''config''))
      else
        (case preValidateConfig E r config of
           Some e \<Rightarrow> Some (Inl e)
         | None \<Rightarrow>
            (case resolveExtends fuel E r config of
               None \<Rightarrow> None
             | Some (Inl e) \<Rightarrow> Some (Inl e)
             | Some (Inr resolvedConfig) \<Rightarrow>
                (case setDefaultValues E r resolvedConfig of
                   Inl e \<Rightarrow> Some (Inl e)
                 | Inr resolvedConfig' \<Rightarrow>
                    (case postValidateConfig E r resolvedConfig' of
                       Some e \<Rightarrow> Some (Inl e)
                     | None \<Rightarrow> Some (Inr resolvedConfig'))))))"

subsection \<open>Setting the resolver data\<close>

text \<open>
  The parameter \<open>{ defaultValues = {}, preValidate = {}, postValidate = {},
  upgradeMergeList = [] } = {}\<close>: an argument that is \<open>undefined\<close> is the empty
  object, destructuring \<open>null\<close> throws, and a property that is \<open>undefined\<close> takes
  its default.
\<close>

definition orDefault :: "jv \<Rightarrow> jv \<Rightarrow> jv" where
  "orDefault v d = (if v = JUndefined then d else v)"

definition destructure :: "jv \<Rightarrow> error + (jv \<times> jv \<times> jv \<times> jv)" where
  "destructure arg =
     (let a = orDefault arg (JObj [])
      in case getProp a ''defaultValues'' of Inl e \<Rightarrow> Inl e
         | Inr dv \<Rightarrow> (case getProp a ''preValidate'' of Inl e \<Rightarrow> Inl e
         | Inr pre \<Rightarrow> (case getProp a ''postValidate'' of Inl e \<Rightarrow> Inl e
         | Inr post \<Rightarrow> (case getProp a ''upgradeMergeList'' of Inl e \<Rightarrow> Inl e
         | Inr uml \<Rightarrow> Inr (orDefault dv (JObj []), orDefault pre (JObj []),
                             orDefault post (JObj []), orDefault uml (JArr []))))))"

text \<open>
  \<open>setResolverData\<close>: the instance after the call, and the error when it throws.
\<close>

definition setResolverData :: "resolver \<Rightarrow> jv \<Rightarrow> resolver \<times> error option" where
  "setResolverData this arg =
     (case destructure arg of
        Inl e \<Rightarrow> (this, Some e)
      | Inr (dv, pre, post, uml) \<Rightarrow>
          if typeof dv \<noteq> ''object'' then (this, Some (notAnObject ''defaultValues''))
          else if typeof pre \<noteq> ''object'' then (this, Some (notAnObject ''preValidate''))
          else if typeof post \<noteq> ''object'' then (this, Some (notAnObject ''postValidate''))
          else if \<not> isArray uml then
            (this, Some (TypeError ([CHR 0x27] @ ''upgradeMergeList'' @ [CHR 0x27]
               @ '' is not an '' @ [CHR 0x27] @ ''array'' @ [CHR 0x27] @ ''.'')))
          else
            (let this1 = this\<lparr>defaultValues := dv\<rparr>;
                 this2 = this1\<lparr>preValidate := pre\<rparr>;
                 this3 = this2\<lparr>postValidate := post\<rparr>;
                 this4 = this3\<lparr>upgradeMergeList := elements uml\<rparr>
             in (this4, None)))"


section \<open>A POSIX environment\<close>

text \<open>
  The POSIX variant of Node's \<open>path\<close> functions, for the environments of the
  examples: paths are split at \<open>/\<close>, and \<open>.\<close>, \<open>..\<close> and empty segments are
  resolved.
\<close>

fun splitSlash :: "string \<Rightarrow> string list" where
  "splitSlash [] = [[]]"
| "splitSlash (c # cs) =
     (if c = CHR ''/'' then [] # splitSlash cs
      else (case splitSlash cs of [] \<Rightarrow> [[c]] | x # xs \<Rightarrow> (c # x) # xs))"

fun joinSlash :: "string list \<Rightarrow> string" where
  "joinSlash [] = []"
| "joinSlash [x] = x"
| "joinSlash (x # y # ys) = x @ ''/'' @ joinSlash (y # ys)"

definition normalizeStep :: "bool \<Rightarrow> string list \<Rightarrow> string \<Rightarrow> string list" where
  "normalizeStep absolute stack seg =
     (if seg = [] \<or> seg = ''.'' then stack
      else if seg = ''..'' then
        (if stack \<noteq> [] \<and> hd stack \<noteq> ''..'' then tl stack
         else if absolute then stack else seg # stack)
      else seg # stack)"

definition normalizeSegments :: "bool \<Rightarrow> string list \<Rightarrow> string list" where
  "normalizeSegments absolute segs = rev (foldl (normalizeStep absolute) [] segs)"

definition posixIsAbsolute :: "string \<Rightarrow> bool" where
  "posixIsAbsolute p = (p \<noteq> [] \<and> hd p = CHR ''/'')"

definition posixNormalize :: "string \<Rightarrow> string" where
  "posixNormalize p =
     (if p = [] then ''.''
      else
        (let absolute = posixIsAbsolute p;
             s = joinSlash (normalizeSegments absolute (splitSlash p));
             s1 = (if s = [] \<and> \<not> absolute then ''.'' else s);
             s2 = (if s1 \<noteq> [] \<and> last p = CHR ''/'' then s1 @ ''/'' else s1)
         in if absolute then ''/'' @ s2 else s2))"

definition posixJoin :: "string \<Rightarrow> string \<Rightarrow> string" where
  "posixJoin a b =
     (let parts = filter (\<lambda>x. x \<noteq> []) [a, b]
      in if parts = [] then ''.'' else posixNormalize (joinSlash parts))"

definition posixResolve :: "string \<Rightarrow> string \<Rightarrow> string \<Rightarrow> string" where
  "posixResolve dir a b =
     (let p1 = (if posixIsAbsolute b \<or> a = [] then b
                else if b = [] then a else a @ ''/'' @ b);
          p2 = (if posixIsAbsolute p1 then p1 else dir @ ''/'' @ p1)
      in ''/'' @ joinSlash (normalizeSegments True (splitSlash p2)))"

definition posixDirname :: "string \<Rightarrow> string" where
  "posixDirname p =
     (let segs = splitSlash (rev (dropWhile (\<lambda>c. c = CHR ''/'') (rev p)));
          d = joinSlash (butlast segs)
      in if p = [] then ''.''
         else if d = [] then (if posixIsAbsolute p then ''/'' else ''.'')
         else d)"

definition posixExtname :: "string \<Rightarrow> string" where
  "posixExtname p =
     (let base = last (splitSlash p);
          ext = rev (takeWhile (\<lambda>c. c \<noteq> CHR ''.'') (rev base))
      in if CHR ''.'' \<notin> set base \<or> length ext + 1 = length base then []
         else ''.'' @ ext)"

text \<open>
  Modelled from the spec: \<open>ObjectUtil.safeSetAll\<close> of typhonjs-object-util with the
  operation \<open>set-undefined\<close> is not in the sources. Every key of the default-value
  mapping that is absent or \<open>undefined\<close> in the configuration is set; a value that is
  present is never overwritten.
\<close>

fun safeSetAllSpec :: "jv \<Rightarrow> jv \<Rightarrow> error + jv" where
  "safeSetAllSpec (JObj kvs) (JObj defaults) =
     Inr (JObj (foldl (\<lambda>acc (k, v). if getOwn acc k = JUndefined then setOwn acc k v else acc)
                  kvs defaults))"
| "safeSetAllSpec config defaults = Inr config"

text \<open>
  An environment on a working directory and a set of JSON files, given by their
  absolute paths. No module can be required, and validation accepts everything.
\<close>

definition posixEnv :: "string \<Rightarrow> (string \<times> jv) list \<Rightarrow> env" where
  "posixEnv dir files =
     \<lparr> cwd = dir,
       isAbsolute = posixIsAbsolute,
       pathJoin = posixJoin,
       pathResolve = posixResolve dir,
       pathDirname = posixDirname,
       pathExtname = posixExtname,
       require = (\<lambda>p. Inl (Error (''Cannot find module '' @ p))),
       readJson = (\<lambda>p. case map_of files p of
                          None \<Rightarrow> Inl (Error (''ENOENT: no such file or directory, open '' @ p))
                        | Some v \<Rightarrow> Inr v),
       validate = (\<lambda>config rules name. None),
       safeSetAll = safeSetAllSpec \<rparr>"

text \<open>The resolver data of \<open>new ConfigResolver()\<close>.\<close>

definition emptyResolver :: resolver where
  "emptyResolver =
     \<lparr> defaultValues = JObj [], preValidate = JObj [], postValidate = JObj [],
       upgradeMergeList = [] \<rparr>"

section \<open>Example configurations\<close>

definition pluginParent :: jv where
  "pluginParent = JObj [(''plugins'',
     JArr [JObj [(''name'', JStr ''y'')], JObj [(''name'', JStr ''x''), (''opt'', JNum 1)]])]"

definition pluginChild :: jv where
  "pluginChild = JObj [(''extends'', JStr ''./parent.json''),
     (''plugins'', JArr [JObj [(''name'', JStr ''x'')]])]"

definition pluginEnv :: env where
  "pluginEnv = posixEnv ''/cwd'' [(''/cwd/parent.json'', pluginParent)]"

definition baseEnv :: env where
  "baseEnv = posixEnv ''/cwd'' [(''/cwd/base.json'', JObj [(''a'', JNum 1)])]"

definition baseResolver :: resolver where
  "baseResolver = emptyResolver\<lparr>defaultValues := JObj [(''b'', JNum 2)]\<rparr>"

definition tagsResolver :: resolver where
  "tagsResolver = emptyResolver\<lparr>upgradeMergeList := [JStr ''tags'']\<rparr>"

definition tagsEnv :: env where
  "tagsEnv = posixEnv ''/cwd'' [(''/cwd/parent.json'', JObj [(''tags'', JStr ''a'')])]"

definition missingEnv :: env where
  "missingEnv = posixEnv ''/cwd'' [(''/cwd/a.json'', JObj [(''a'', JNum 1)])]"

definition cycleEnv :: env where
  "cycleEnv = posixEnv ''/cwd''
     [(''/cwd/a.json'', JObj [(''extends'', JStr ''./b.json''), (''a'', JNum 1)]),
      (''/cwd/b.json'', JObj [(''extends'', JStr ''./a.json''), (''b'', JNum 2)])]"

text \<open>
  A loader keeps the loaded-chain record in order: started on a record without
  duplicates, it only appends to it and leaves it without duplicates.
\<close>

definition appendsDistinct :: "(string \<Rightarrow> string \<Rightarrow> string list \<Rightarrow> outcome) \<Rightarrow> bool" where
  "appendsDistinct loadFn =
     (\<forall>p rel L L' res. distinct L \<longrightarrow> loadFn p rel L = Some (L', res)
        \<longrightarrow> distinct L' \<and> (\<exists>ys. L' = L @ ys))"



text \<open>A scalar: a value that is neither an array nor an object.\<close>

definition isScalar :: "jv \<Rightarrow> bool" where
  "isScalar v = (\<not> isArray v \<and> \<not> isObject v)"

text \<open>
  An entry that a merge over scalars takes over as it is: a scalar, or an array of
  more than one primitive under a key other than \<open>plugins\<close>.
\<close>

definition plainEntry :: "string \<times> jv \<Rightarrow> bool" where
  "plainEntry e =
     (isScalar (snd e) \<or>
      (fst e \<noteq> ''plugins'' \<and> isArray (snd e) \<and> 1 < length (elements (snd e)) \<and>
       list_all isPrim (elements (snd e))))"

text \<open>Assigning the entries of \<open>src\<close> to \<open>dst\<close>, one after the other.\<close>

definition assignAll :: "(string \<times> jv) list \<Rightarrow> (string \<times> jv) list \<Rightarrow> (string \<times> jv) list" where
  "assignAll dst src = foldl (\<lambda>d (k, v). setOwn d k v) dst src"

text \<open>An object all of whose values are scalars.\<close>

definition scalarEntries :: "(string \<times> jv) list \<Rightarrow> bool" where
  "scalarEntries kvs = list_all (\<lambda>e. isScalar (snd e)) kvs"

text \<open>A child extending two siblings.\<close>

definition siblingA :: "(string \<times> jv) list" where
  "siblingA = [(''all'', JStr ''A''), (''ab'', JStr ''A''), (''a'', JStr ''A'')]"

definition siblingB :: "(string \<times> jv) list" where
  "siblingB = [(''all'', JStr ''B''), (''ab'', JStr ''B''), (''b'', JStr ''B'')]"

definition siblingChild :: "(string \<times> jv) list" where
  "siblingChild =
     [(''extends'', JArr [JStr ''./a.json'', JStr ''./b.json'']), (''all'', JStr ''child'')]"

definition siblingEnv :: env where
  "siblingEnv = posixEnv ''/cwd''
     [(''/cwd/a.json'', JObj siblingA), (''/cwd/b.json'', JObj siblingB)]"

section \<open>Plugin reordering\<close>

text \<open>
  C3. With \<open>child.plugins = [{name:'x'}]\<close>, \<open>parent.plugins = [{name:'y'},
  {name:'x', opt:1}]\<close> and the child extending the parent, \<open>resolve\<close> returns the
  plugins \<open>[{name:'y'}, {name:'x'}]\<close>: the child's \<open>x\<close> has replaced the parent's,
  and the parent's \<open>y\<close> comes first.
\<close>

theorem plugin_reordering:
  "resolve (Suc fuel) pluginEnv emptyResolver pluginChild =
     Some (Inr (JObj
       [(''plugins'', JArr [JObj [(''name'', JStr ''y'')], JObj [(''name'', JStr ''x'')]]),
        (''extends'', JArr [JStr ''/cwd/parent.json''])]))"
  by code_simp

section \<open>Classification of references\<close>

text \<open>
  C6. The reference \<open>_config\<close> is not an absolute path and its first character, the
  underscore, is neither alphanumeric nor \<open>@\<close>; \<open>_isFilePath\<close> does not take it for
  a file path, since \<open>\w\<close> matches the underscore.
\<close>

theorem isFilePath_underscore:
  "isFilePath (posixEnv ''/cwd'' []) ''_config'' = False"
  by code_simp

section \<open>Upgrade-merge keys\<close>

text \<open>
  C7. With \<open>tags\<close> in the upgrade-merge list, a child that extends a parent with
  \<open>tags: 'a'\<close> and has no \<open>tags\<close> of its own resolves to \<open>tags: 'a'\<close>: the value
  is not promoted to a sequence. Moreover \<open>['b', 'c']\<close> merged over \<open>['a', 'b']\<close>
  gives \<open>['b', 'c']\<close>, not the union, and \<open>['a', 'a']\<close> merged over nothing keeps
  its duplicate.
\<close>

theorem upgrade_key_of_parent_not_promoted:
  "resolve (Suc fuel) tagsEnv tagsResolver (JObj [(''extends'', JStr ''./parent.json'')]) =
     Some (Inr (JObj [(''tags'', JStr ''a''), (''extends'', JArr [JStr ''/cwd/parent.json''])])) \<and>
   deepMerge [JStr ''tags''] (JObj [(''tags'', JArr [JStr ''a'', JStr ''b''])])
       (JObj [(''tags'', JArr [JStr ''b'', JStr ''c''])]) False None =
     Inr (JObj [(''tags'', JArr [JStr ''b'', JStr ''c''])],
          JObj [(''tags'', JArr [JStr ''b'', JStr ''c''])]) \<and>
   deepMerge [JStr ''tags''] (JObj []) (JObj [(''tags'', JArr [JStr ''a'', JStr ''a''])]) False None =
     Inr (JObj [(''tags'', JArr [JStr ''a'', JStr ''a''])],
          JObj [(''tags'', JArr [JStr ''a'', JStr ''a''])])"
  by code_simp

section \<open>The guard of resolve\<close>

text \<open>
  C9. The guard of \<open>resolve\<close> rejects exactly the arguments whose \<open>typeof\<close> is not
  \<open>object\<close>. \<open>null\<close> passes it: when pre-validation accepts it, the call fails
  on reading \<open>extends\<close> off \<open>null\<close>, with another error than the guard's. An array
  passes it: when pre-validation accepts it, the call goes on with its copy, to the
  default values and post-validation.
\<close>

theorem resolve_guard:
  "(typeof config \<noteq> ''object'' \<longrightarrow>
      resolve fuel E r config = Some (Inl (notAnObject ''config''))) \<and>
   (preValidateConfig E r JNull = None \<longrightarrow>
      resolve fuel E r JNull = Some (getProp JNull ''extends'') \<and>
      getProp JNull ''extends'' \<noteq> Inl (notAnObject ''config'')) \<and>
   (preValidateConfig E r (JArr xs) = None \<longrightarrow>
      resolve fuel E r (JArr xs) =
        (case setDefaultValues E r (jsonCopy (JArr xs)) of
           Inl e \<Rightarrow> Some (Inl e)
         | Inr c \<Rightarrow> (case postValidateConfig E r c of
                       Some e \<Rightarrow> Some (Inl e) | None \<Rightarrow> Some (Inr c))))"
proof (intro conjI impI)
  assume "typeof config \<noteq> ''object''"
  then show "resolve fuel E r config = Some (Inl (notAnObject ''config''))"
    by (simp add: resolve_def)
next
  assume "preValidateConfig E r JNull = None"
  then show "resolve fuel E r JNull = Some (getProp JNull ''extends'')"
    by (simp add: resolve_def resolveExtends_def)
next
  show "getProp JNull ''extends'' \<noteq> Inl (notAnObject ''config'')"
    by (simp add: notAnObject_def)
next
  assume "preValidateConfig E r (JArr xs) = None"
  moreover have "getProp (JArr xs) ''extends'' = Inr JUndefined"
    by (simp add: parseIndex_def isDigit_def)
  ultimately show "resolve fuel E r (JArr xs) =
        (case setDefaultValues E r (jsonCopy (JArr xs)) of
           Inl e \<Rightarrow> Some (Inl e)
         | Inr c \<Rightarrow> (case postValidateConfig E r c of
                       Some e \<Rightarrow> Some (Inl e) | None \<Rightarrow> Some (Inr c)))"
    by (simp add: resolve_def resolveExtends_def split: sum.splits option.splits)
qed

theorem resolve_guard_witness:
  "resolve 1 baseEnv emptyResolver (JStr ''x'') = Some (Inl (notAnObject ''config'')) \<and>
   resolve 1 baseEnv emptyResolver JNull =
     Some (Inl (TypeError ''Cannot read property extends of null'')) \<and>
   resolve 1 baseEnv emptyResolver (JArr [JNum 1]) = Some (Inr (JArr [JNum 1]))"
proof -
  have a: "typeof (JStr ''x'') \<noteq> ''object''" by simp
  have b: "preValidateConfig baseEnv emptyResolver JNull = None" by code_simp
  have c: "preValidateConfig baseEnv emptyResolver (JArr [JNum 1]) = None" by code_simp
  have d: "setDefaultValues baseEnv emptyResolver (JArr [JNum 1]) = Inr (JArr [JNum 1])"
    by code_simp
  have e: "postValidateConfig baseEnv emptyResolver (JArr [JNum 1]) = None" by code_simp
  show ?thesis
    using resolve_guard [of "JStr ''x''" 1 baseEnv emptyResolver "[JNum 1]"] a b c
    by (simp add: d e)
qed

section \<open>Setting the resolver data\<close>

text \<open>
  C10. \<open>setResolverData\<close> checks all four components before it assigns any field:
  whenever it throws, the error is a TypeError and the resolver data is what it was;
  when it returns, the three mappings it has stored are object-typed.
\<close>

theorem setResolverData_atomic:
  "(\<forall>e. snd (setResolverData this arg) = Some e \<longrightarrow>
      fst (setResolverData this arg) = this \<and> (\<exists>m. e = TypeError m)) \<and>
   (snd (setResolverData this arg) = None \<longrightarrow>
      typeof (defaultValues (fst (setResolverData this arg))) = ''object'' \<and>
      typeof (preValidate (fst (setResolverData this arg))) = ''object'' \<and>
      typeof (postValidate (fst (setResolverData this arg))) = ''object'')"
proof -
  have "\<exists>m. e = TypeError m" if "destructure arg = Inl e" for e
    using that by (cases "orDefault arg (JObj [])")
      (auto simp: destructure_def Let_def split: sum.splits)
  then show ?thesis
    by (auto simp: setResolverData_def notAnObject_def Let_def split: sum.splits prod.splits)
qed

theorem setResolverData_atomic_witness:
  "snd (setResolverData baseResolver
      (JObj [(''defaultValues'', JObj [(''c'', JNum 3)]), (''upgradeMergeList'', JStr ''tags'')]))
     \<noteq> None \<and>
   fst (setResolverData baseResolver
      (JObj [(''defaultValues'', JObj [(''c'', JNum 3)]), (''upgradeMergeList'', JStr ''tags'')]))
     = baseResolver"
proof -
  have "snd (setResolverData baseResolver
      (JObj [(''defaultValues'', JObj [(''c'', JNum 3)]), (''upgradeMergeList'', JStr ''tags'')]))
     \<noteq> None"
    by code_simp
  then show ?thesis
    using setResolverData_atomic [of baseResolver
      "JObj [(''defaultValues'', JObj [(''c'', JNum 3)]), (''upgradeMergeList'', JStr ''tags'')]"]
    by auto
qed

section \<open>Errors on the extends chain\<close>

text \<open>
  C8. When walking the extends chain throws, \<open>resolve\<close> throws the same error with
  \<open>Referenced from:\<close> and the loaded-chain record of this resolution, one identifier
  per line in load order, appended to its message; every identifier of the record
  occurs in the message.
\<close>

theorem resolve_error_augmented:
  assumes "typeof config = ''object''"
    and "preValidateConfig E r config = None"
    and "getProp config ''extends'' = Inr ext"
    and "truthy ext"
    and "applyExtends fuel E r config (cwd E) (cwd E) [] = Some (loadedConfigs, Inl err)"
  shows "\<exists>err'. resolve fuel E r config = Some (Inl err') \<and>
           err' = append_message err (referencedFrom loadedConfigs) \<and>
           message err' = message err @ [CHR 0x0A] @ ''Referenced from: '' @ [CHR 0x0A]
                            @ joinLines loadedConfigs \<and>
           (\<forall>p \<in> set loadedConfigs. \<exists>u v. message err' = u @ p @ v)"
proof -
  let ?err' = "append_message err (referencedFrom loadedConfigs)"
  have res: "resolve fuel E r config = Some (Inl ?err')"
    using assms by (simp add: resolve_def resolveExtends_def)
  have msg: "message ?err' = message err @ referencedFrom loadedConfigs"
    by (cases err) simp_all
  have occ: "\<exists>u v. joinLines xs = u @ p @ v" if "p \<in> set xs" for p xs
    using that
  proof (induction xs rule: joinLines.induct)
    case 1
    then show ?case by simp
  next
    case (2 x)
    then have "joinLines [x] = [] @ p @ []" by simp
    then show ?case by blast
  next
    case (3 x y ys)
    show ?case
    proof (cases "p = x")
      case True
      then have "joinLines (x # y # ys) = [] @ p @ ([CHR 0x0A] @ joinLines (y # ys))" by simp
      then show ?thesis by blast
    next
      case False
      with 3 obtain u v where "joinLines (y # ys) = u @ p @ v" by auto
      then have "joinLines (x # y # ys) = (x @ [CHR 0x0A] @ u) @ p @ v" by simp
      then show ?thesis by blast
    qed
  qed
  have "\<exists>u v. message ?err' = u @ p @ v" if "p \<in> set loadedConfigs" for p
  proof -
    from occ [OF that] obtain u v where "joinLines loadedConfigs = u @ p @ v" by blast
    then have "message ?err' =
        (message err @ [CHR 0x0A] @ ''Referenced from: '' @ [CHR 0x0A] @ u) @ p @ v"
      unfolding msg by (simp add: referencedFrom_def)
    then show ?thesis by blast
  qed
  moreover have "message ?err' = message err @ [CHR 0x0A] @ ''Referenced from: '' @ [CHR 0x0A]
      @ joinLines loadedConfigs"
    unfolding msg by (simp add: referencedFrom_def)
  ultimately show ?thesis using res by blast
qed

theorem resolve_error_augmented_witness:
  "resolve 1 missingEnv emptyResolver
      (JObj [(''extends'', JArr [JStr ''./missing.json'', JStr ''./a.json''])]) =
   Some (Inl (Error (''ENOENT: no such file or directory, open /cwd/missing.json''
      @ [CHR 0x0A] @ ''Referenced from: '' @ [CHR 0x0A] @ ''/cwd/a.json'' @ [CHR 0x0A]
      @ ''/cwd/missing.json'')))"
proof -
  let ?config = "JObj [(''extends'', JArr [JStr ''./missing.json'', JStr ''./a.json''])]"
  have a: "typeof ?config = ''object''" by simp
  have b: "preValidateConfig missingEnv emptyResolver ?config = None" by code_simp
  have c: "getProp ?config ''extends'' = Inr (JArr [JStr ''./missing.json'', JStr ''./a.json''])"
    by code_simp
  have d: "truthy (JArr [JStr ''./missing.json'', JStr ''./a.json''])" by simp
  have e: "applyExtends 1 missingEnv emptyResolver ?config (cwd missingEnv) (cwd missingEnv) [] =
      Some ([''/cwd/a.json'', ''/cwd/missing.json''],
            Inl (Error ''ENOENT: no such file or directory, open /cwd/missing.json''))"
    by code_simp
  from resolve_error_augmented [OF a b c d e] show ?thesis
    by (simp add: referencedFrom_def)
qed

section \<open>The cycle guard\<close>

lemma extendsStep_chain:
  assumes loadFn: "appendsDistinct loadFn"
    and "distinct L"
    and "extendsStep loadFn E r filePath relativeTo L previousValue parent = Some (L', res)"
  shows "distinct L' \<and> (\<exists>ys. L' = L @ ys)"
proof (cases "stringOf parent")
  case None
  with assms(2,3) show ?thesis by (simp add: extendsStep_def)
next
  case (Some p)
  let ?pp = "resolveReference E filePath relativeTo p"
  show ?thesis
  proof (cases "?pp \<in> set L")
    case True
    with Some assms(2,3) show ?thesis by (simp add: extendsStep_def)
  next
    case False
    with Some assms(3) obtain L1 res1 where l: "loadFn ?pp relativeTo (L @ [?pp]) = Some (L1, res1)"
      and eq: "L' = L1"
      by (auto simp: extendsStep_def Let_def split: option.splits sum.splits prod.splits)
    from False assms(2) have "distinct (L @ [?pp])" by simp
    with loadFn l eq show ?thesis unfolding appendsDistinct_def by fastforce
  qed
qed

lemma reduceExtends_chain:
  assumes loadFn: "appendsDistinct loadFn"
    and "distinct L"
    and "reduceExtends loadFn E r filePath relativeTo ps L config = Some (L', res)"
  shows "distinct L' \<and> (\<exists>ys. L' = L @ ys)"
  using assms(3)
proof (induction ps arbitrary: L' res)
  case Nil
  with assms(2) show ?case by simp
next
  case (Cons parent ps)
  from Cons.prems obtain L1 res1
    where r1: "reduceExtends loadFn E r filePath relativeTo ps L config = Some (L1, res1)"
    by (auto split: option.splits)
  from Cons.IH [OF r1] have d1: "distinct L1" and e1: "\<exists>ys. L1 = L @ ys" by auto
  show ?case
  proof (cases res1)
    case (Inl e)
    with Cons.prems r1 d1 e1 show ?thesis by simp
  next
    case (Inr previousValue)
    with Cons.prems r1
    have "extendsStep loadFn E r filePath relativeTo L1 previousValue parent = Some (L', res)"
      by simp
    from extendsStep_chain [OF loadFn d1 this] e1 show ?thesis by auto
  qed
qed

lemma applyExtendsWith_chain:
  assumes loadFn: "appendsDistinct loadFn"
    and "distinct L"
    and "applyExtendsWith loadFn E r config filePath relativeTo L = Some (L', res)"
  shows "distinct L' \<and> (\<exists>ys. L' = L @ ys)"
proof (cases "getProp config ''extends''")
  case (Inl e)
  with assms(2,3) show ?thesis by (simp add: applyExtendsWith_def)
next
  case (Inr ext)
  with assms(3) have "reduceExtends loadFn E r filePath relativeTo
      (if isArray ext then elements ext else [ext]) L config = Some (L', res)"
    by (simp add: applyExtendsWith_def)
  from reduceExtends_chain [OF loadFn assms(2) this] show ?thesis .
qed

lemma load_chain: "appendsDistinct (load fuel E r)"
proof (induction fuel)
  case 0
  show ?case by (simp add: appendsDistinct_def)
next
  case (Suc fuel)
  show ?case
    unfolding appendsDistinct_def
  proof (intro allI impI)
    fix p rel L L' res
    assume d: "distinct L" and l: "load (Suc fuel) E r p rel L = Some (L', res)"
    have inner: "distinct L' \<and> (\<exists>ys. L' = L @ ys)"
      if "applyExtendsWith (load fuel E r) E r config p dir L = Some (L', res)" for config dir
      using applyExtendsWith_chain [OF Suc.IH d that] .
    from l d show "distinct L' \<and> (\<exists>ys. L' = L @ ys)"
      by (auto simp: Let_def split: sum.splits option.splits if_splits dest: inner)
  qed
qed

text \<open>
  C4. A reference whose resolved identifier is already in the loaded-chain record is
  skipped: the step returns the accumulator and the record as they are, without
  loading, merging or throwing. Hence \<open>_applyExtends\<close>, started on a record without
  duplicates, only ever appends to it and leaves it without duplicates, whether it
  returns or throws.
\<close>

theorem cycle_guard:
  assumes "distinct loadedConfigs"
  shows "(resolveReference E filePath relativeTo p \<in> set loadedConfigs \<longrightarrow>
            extendsStep (load fuel E r) E r filePath relativeTo loadedConfigs previousValue
              (JStr p) = Some (loadedConfigs, Inr previousValue)) \<and>
         (\<forall>loaded res.
            applyExtends fuel E r config filePath relativeTo loadedConfigs = Some (loaded, res)
              \<longrightarrow> distinct loaded \<and> (\<exists>ys. loaded = loadedConfigs @ ys))"
proof (rule conjI)
  show "resolveReference E filePath relativeTo p \<in> set loadedConfigs \<longrightarrow>
      extendsStep (load fuel E r) E r filePath relativeTo loadedConfigs previousValue
        (JStr p) = Some (loadedConfigs, Inr previousValue)"
    by (simp add: extendsStep_def)
next
  show "\<forall>loaded res.
      applyExtends fuel E r config filePath relativeTo loadedConfigs = Some (loaded, res)
        \<longrightarrow> distinct loaded \<and> (\<exists>ys. loaded = loadedConfigs @ ys)"
  proof (intro allI impI)
  fix loaded res
  assume "applyExtends fuel E r config filePath relativeTo loadedConfigs = Some (loaded, res)"
  then have "applyExtendsWith (load fuel E r) E r config filePath relativeTo loadedConfigs
      = Some (loaded, res)"
    by (simp add: applyExtends_def)
  from applyExtendsWith_chain [OF load_chain assms this]
  show "distinct loaded \<and> (\<exists>ys. loaded = loadedConfigs @ ys)" .
  qed
qed

theorem cycle_guard_witness:
  "extendsStep (load 2 cycleEnv emptyResolver) cycleEnv emptyResolver ''/cwd/b.json'' ''/cwd''
      [''/cwd/a.json'', ''/cwd/b.json''] (JObj [(''b'', JNum 2)]) (JStr ''./a.json'') =
     Some ([''/cwd/a.json'', ''/cwd/b.json''], Inr (JObj [(''b'', JNum 2)])) \<and>
   applyExtends 2 cycleEnv emptyResolver (JObj [(''extends'', JStr ''./a.json'')]) ''/cwd'' ''/cwd'' []
     = Some ([''/cwd/a.json'', ''/cwd/b.json''],
         Inr (JObj [(''extends'', JStr ''./a.json''), (''b'', JNum 2), (''a'', JNum 1)]))"
proof -
  have d: "distinct [''/cwd/a.json'', ''/cwd/b.json'']" by simp
  have m: "resolveReference cycleEnv ''/cwd/b.json'' ''/cwd'' ''./a.json''
      \<in> set [''/cwd/a.json'', ''/cwd/b.json'']"
    by code_simp
  have a: "applyExtends 2 cycleEnv emptyResolver (JObj [(''extends'', JStr ''./a.json'')])
      ''/cwd'' ''/cwd'' []
     = Some ([''/cwd/a.json'', ''/cwd/b.json''],
         Inr (JObj [(''extends'', JStr ''./a.json''), (''b'', JNum 2), (''a'', JNum 1)]))"
    by code_simp
  from cycle_guard [OF d, of cycleEnv "''/cwd/b.json''" "''/cwd''" "''./a.json''" 2 emptyResolver
      "JObj [(''b'', JNum 2)]"] m a
  show ?thesis by blast
qed

section \<open>Frame of the deep merge\<close>

lemma setOwn_same: "map_of kvs k = Some v \<Longrightarrow> setOwn kvs k v = kvs"
  by (induction kvs) (auto split: if_splits)

lemma writeBack_getIndex: "writeBack src i (getIndex src i) = src"
  by (cases src) (auto simp: indexAt_def getOwn_def setOwn_same split: option.splits)

lemma writeBackAll_getIndex: "writeBackAll src i (map (getIndex src) [i..<i + m]) = src"
proof (induction m arbitrary: i)
  case 0
  show ?case by simp
next
  case (Suc m)
  have "[i..<i + Suc m] = i # [Suc i..<Suc i + m]" by (simp add: upt_conv_Cons)
  with Suc [of "Suc i"] show ?case by (simp add: writeBack_getIndex del: upt_Suc)
qed





subsection \<open>What the merge leaves in src\<close>








section \<open>The extends key of the result\<close>

lemma merge_single_extends:
  "\<exists>x s. deepMerge ul (JObj [(''a'', JNum 1)]) (JObj [(''extends'', JStr p)]) False None =
     Inr (JObj [(''a'', JNum 1), (''extends'', x)], s)"
proof (cases "JStr ''extends'' \<in> set ul")
  case True
  then show ?thesis
    by (simp add: deepMerge.simps Let_def getOwn_def indexAt_def setIndex_def dec.simps digit_def
        copyOwn_def assignKey_def)
next
  case False
  then show ?thesis
    by (simp add: deepMerge.simps Let_def getOwn_def copyOwn_def assignKey_def)
qed

text \<open>
  C5 (as amended). With \<open>base.json\<close> holding \<open>{ a: 1 }\<close> and the default values
  \<open>{ b: 2 }\<close>, \<open>resolve({ extends: './base.json' })\<close> returns \<open>{ a: 1, extends:
  [P], b: 2 }\<close>, where \<open>P\<close> is the identifier under which the reference was loaded:
  \<open>./base.json\<close> joined to the working directory. The \<open>extends\<close> key of the result
  holds the loaded-chain record and not the references as they were written.
\<close>

theorem resolve_base_scenario:
  assumes "defaultValues r = JObj [(''b'', JNum 2)]"
    and "safeSetAll E = safeSetAllSpec"
    and "preValidateConfig E r (JObj [(''extends'', JStr ''./base.json'')]) = None"
    and "postValidateConfig E r
           (JObj [(''a'', JNum 1),
                  (''extends'', JArr [JStr (resolveReference E (cwd E) (cwd E) ''./base.json'')]),
                  (''b'', JNum 2)]) = None"
    and "load fuel E r (resolveReference E (cwd E) (cwd E) ''./base.json'') (cwd E)
           [resolveReference E (cwd E) (cwd E) ''./base.json'']
         = Some ([resolveReference E (cwd E) (cwd E) ''./base.json''],
                 Inr (JObj [(''a'', JNum 1)]))"
  shows "resolve fuel E r (JObj [(''extends'', JStr ''./base.json'')]) =
     Some (Inr (JObj [(''a'', JNum 1),
                      (''extends'', JArr [JStr (resolveReference E (cwd E) (cwd E) ''./base.json'')]),
                      (''b'', JNum 2)]))"
proof -
  let ?P = "resolveReference E (cwd E) (cwd E) ''./base.json''"
  let ?config = "JObj [(''extends'', JStr ''./base.json'')]"
  from merge_single_extends [of "upgradeMergeList r" "''./base.json''"]
  obtain x s where m: "deepMerge (upgradeMergeList r) (JObj [(''a'', JNum 1)]) ?config False None
      = Inr (JObj [(''a'', JNum 1), (''extends'', x)], s)"
    by blast
  have ae: "applyExtends fuel E r ?config (cwd E) (cwd E) [] =
      Some ([?P], Inr (JObj [(''a'', JNum 1), (''extends'', x)]))"
    using assms(5) m
    by (simp add: applyExtends_def applyExtendsWith_def extendsStep_def getOwn_def Let_def)
  have re: "resolveExtends fuel E r ?config =
      Some (Inr (JObj [(''a'', JNum 1), (''extends'', JArr [JStr ?P])]))"
    using ae by (simp add: resolveExtends_def getOwn_def deleteOwn_def)
  have sd: "setDefaultValues E r (JObj [(''a'', JNum 1), (''extends'', JArr [JStr ?P])]) =
      Inr (JObj [(''a'', JNum 1), (''extends'', JArr [JStr ?P]), (''b'', JNum 2)])"
    using assms(1,2) by (simp add: setDefaultValues_def getOwn_def)
  show ?thesis
    using assms(3,4) re sd by (simp add: resolve_def)
qed

theorem resolve_base_scenario_witness:
  "resolve 1 baseEnv baseResolver (JObj [(''extends'', JStr ''./base.json'')]) =
     Some (Inr (JObj [(''a'', JNum 1), (''extends'', JArr [JStr ''/cwd/base.json'']),
                      (''b'', JNum 2)]))"
proof -
  have p: "resolveReference baseEnv (cwd baseEnv) (cwd baseEnv) ''./base.json'' = ''/cwd/base.json''"
    by code_simp
  have a: "defaultValues baseResolver = JObj [(''b'', JNum 2)]"
    by (simp add: baseResolver_def)
  have b: "safeSetAll baseEnv = safeSetAllSpec"
    by (simp add: baseEnv_def posixEnv_def)
  have c: "preValidateConfig baseEnv baseResolver (JObj [(''extends'', JStr ''./base.json'')]) = None"
    by code_simp
  have d: "postValidateConfig baseEnv baseResolver
           (JObj [(''a'', JNum 1),
                  (''extends'', JArr [JStr (resolveReference baseEnv (cwd baseEnv) (cwd baseEnv) ''./base.json'')]),
                  (''b'', JNum 2)]) = None"
    unfolding p by code_simp
  have e: "load 1 baseEnv baseResolver
        (resolveReference baseEnv (cwd baseEnv) (cwd baseEnv) ''./base.json'') (cwd baseEnv)
        [resolveReference baseEnv (cwd baseEnv) (cwd baseEnv) ''./base.json'']
      = Some ([resolveReference baseEnv (cwd baseEnv) (cwd baseEnv) ''./base.json''],
              Inr (JObj [(''a'', JNum 1)]))"
    unfolding p by code_simp
  from resolve_base_scenario [OF a b c d e] show ?thesis
    unfolding p .
qed

text \<open>
  C5 (as stated) fails: in the working directory \<open>/cwd\<close> the result's \<open>extends\<close> is
  \<open>['/cwd/base.json']\<close>, not \<open>['./base.json']\<close>.
\<close>

theorem resolve_base_extends_is_resolved:
  "Option.bind (resolve 1 baseEnv baseResolver (JObj [(''extends'', JStr ''./base.json'')]))
     (\<lambda>res. case res of Inl e \<Rightarrow> None | Inr v \<Rightarrow> Some (getProp v ''extends''))
     = Some (Inr (JArr [JStr ''/cwd/base.json''])) \<and>
   JArr [JStr ''/cwd/base.json''] \<noteq> JArr [JStr ''./base.json'']"
  by code_simp

section \<open>Precedence\<close>

lemma setIndex_same: "setIndex (pre @ x # es) (length pre) x = pre @ x # es"
  by (simp add: setIndex_def)

lemma indexAt_mid: "indexAt (pre @ x # es) (length pre) = x"
  by (simp add: indexAt_def)

lemma mergeElements_prims:
  "list_all isPrim es \<Longrightarrow>
   mergeElements ul t False pk (length pre) es (pre @ es) = Inr (pre @ es, es)"
proof (induction es arbitrary: pre)
  case Nil
  show ?case by simp
next
  case (Cons x es)
  from Cons.prems have "isPrim x" and pes: "list_all isPrim es"
    by simp_all
  then have px: "typeof x \<noteq> ''object''"
    by (simp add: isPrim_def)
  from Cons.IH [OF pes, of "pre @ [x]"]
  have "mergeElements ul t False pk (Suc (length pre)) es (pre @ x # es) = Inr (pre @ x # es, es)"
    by simp
  with px show ?case
    by (simp add: indexAt_mid setIndex_same)
qed

lemma map_getIndex_Arr: "map (getIndex (JArr xs)) [0..<length xs] = xs"
proof -
  have "map (getIndex (JArr xs)) [0..<length xs] = map ((!) xs) [0..<length xs]"
    by (rule map_cong) (simp_all add: indexAt_def)
  then show ?thesis by (simp add: map_nth)
qed

lemma deepMerge_prim_array:
  assumes "1 < length xs" and "list_all isPrim xs" and "pk \<noteq> Some ''plugins''"
  shows "deepMerge ul t (JArr xs) False pk = Inr (JArr xs, JArr xs)"
proof -
  have me: "mergeElements ul t' False pk 0 xs xs = Inr (xs, xs)" for t'
    using mergeElements_prims [OF assms(2), of ul t' pk "[]"] by simp
  have wb: "writeBackAll (JArr xs) 0 xs = JArr xs"
    using writeBackAll_getIndex [of "JArr xs" 0 "length xs"]
    by (simp only: map_getIndex_Arr add_0)
  show ?thesis
    using assms(1,3)
    by (subst deepMerge.simps)
      (simp add: Let_def me wb map_getIndex_Arr del: getIndex.simps upt_Suc)
qed

lemma getOwn_scalar: "scalarEntries t \<Longrightarrow> \<not> isArray (getOwn t k)"
  by (induction t) (auto simp: scalarEntries_def getOwn_def isScalar_def)

lemma mergeKeys_plain:
  assumes "scalarEntries t" and "list_all plainEntry s"
    and "\<forall>e \<in> set s. JStr (fst e) \<notin> set ul"
    and "\<forall>e \<in> set s. fst e \<noteq> ''__proto__''"
  shows "mergeKeys ul (JObj t) combine src s dst = Inr (assignAll dst s, s)"
  using assms(2,3,4)
proof (induction s arbitrary: dst)
  case Nil
  show ?case by (simp add: assignAll_def)
next
  case (Cons e s)
  obtain k v where e: "e = (k, v)" by (cases e)
  from Cons.prems e have pe: "plainEntry (k, v)" and nk: "JStr k \<notin> set ul"
    and ps: "list_all plainEntry s" and ns: "\<forall>e \<in> set s. JStr (fst e) \<notin> set ul"
    and np: "k \<noteq> ''__proto__''" and nps: "\<forall>e \<in> set s. fst e \<noteq> ''__proto__''"
    by simp_all
  have nt: "\<not> isArray (getOwn t k)" by (rule getOwn_scalar [OF assms(1)])
  have gp: "getProp (JObj t) k = Inr (getOwn t k)" using np by simp
  have ak: "assignKey (JObj t) dst k x = setOwn dst k x" for x
    using np by (simp add: assignKey_def)
  have rest: "mergeKeys ul (JObj t) combine src s (setOwn dst k v) =
      Inr (assignAll (setOwn dst k v) s, s)"
    by (rule Cons.IH [OF ps ns nps])
  have goal: "assignAll dst ((k, v) # s) = assignAll (setOwn dst k v) s"
    by (simp add: assignAll_def)
  show ?case
  proof (cases "isArray v")
    case True
    with pe have "k \<noteq> ''plugins''" "1 < length (elements v)" "list_all isPrim (elements v)"
      by (auto simp: plainEntry_def isScalar_def)
    moreover from True obtain xs where "v = JArr xs" by (cases v) auto
    ultimately have "deepMerge ul (getOwn t k) v False (Some k) = Inr (v, v)"
      using deepMerge_prim_array [of xs "Some k" ul "getOwn t k"] by simp
    with True nk rest show ?thesis
      unfolding e goal by (simp add: gp ak del: getProp.simps)
  next
    case False
    with pe have "isScalar v" by (simp add: plainEntry_def)
    then have "typeof v \<noteq> ''object'' \<or> \<not> truthy v"
      by (cases v) (simp_all add: isScalar_def)
    with False nk nt rest show ?thesis
      unfolding e goal by (simp add: gp ak del: getProp.simps)
  qed
qed

lemma copyOwn_plain: "\<forall>e \<in> set t. fst e \<noteq> ''__proto__'' \<Longrightarrow> copyOwn (JObj t) = t"
  by (induction t) (auto simp: copyOwn_def)

lemma deepMerge_plain:
  assumes "scalarEntries t" and "list_all plainEntry s"
    and "\<forall>e \<in> set s. JStr (fst e) \<notin> set ul"
    and "\<forall>e \<in> set s. fst e \<noteq> ''__proto__''"
    and "\<forall>e \<in> set t. fst e \<noteq> ''__proto__''"
  shows "deepMerge ul (JObj t) (JObj s) combine pk = Inr (JObj (assignAll t s), JObj s)"
  by (subst deepMerge.simps)
    (simp add: mergeKeys_plain [OF assms(1-4)] copyOwn_plain [OF assms(5)])

lemma getOwn_Cons: "getOwn ((k0, v0) # s) k = (if k = k0 then v0 else getOwn s k)"
  by (simp add: getOwn_def)

lemma getOwn_setOwn: "getOwn (setOwn kvs k v) k' = (if k' = k then v else getOwn kvs k')"
  by (induction kvs) (auto simp: getOwn_def)

lemma keys_setOwn: "fst ` set (setOwn kvs k v) = insert k (fst ` set kvs)"
proof (induction kvs)
  case Nil
  show ?case by simp
next
  case (Cons e kvs)
  obtain k' v' where e: "e = (k', v')" by (cases e)
  show ?case
  proof (cases "k' = k")
    case True
    then show ?thesis by (simp add: e)
  next
    case False
    then show ?thesis using Cons.IH by (simp add: e insert_commute)
  qed
qed

lemma set_setOwn: "set (setOwn kvs k v) \<subseteq> insert (k, v) (set kvs)"
proof (induction kvs)
  case Nil
  show ?case by simp
next
  case (Cons e kvs)
  obtain k' v' where e: "e = (k', v')" by (cases e)
  show ?case
  proof (cases "k' = k")
    case True
    then show ?thesis by (auto simp: e)
  next
    case False
    then show ?thesis using Cons.IH by (auto simp: e)
  qed
qed

lemma distinct_setOwn: "distinct (map fst kvs) \<Longrightarrow> distinct (map fst (setOwn kvs k v))"
proof (induction kvs)
  case Nil
  show ?case by simp
next
  case (Cons e kvs)
  obtain k' v' where e: "e = (k', v')" by (cases e)
  show ?case
  proof (cases "k' = k")
    case True
    with Cons.prems show ?thesis by (simp add: e)
  next
    case False
    with Cons show ?thesis by (simp add: e keys_setOwn)
  qed
qed

lemma keys_assignAll: "fst ` set (assignAll d s) = fst ` set d \<union> fst ` set s"
proof (induction s arbitrary: d)
  case Nil
  show ?case by (simp add: assignAll_def)
next
  case (Cons e s)
  obtain k v where e: "e = (k, v)" by (cases e)
  have "fst ` set (assignAll d (e # s)) = fst ` set (assignAll (setOwn d k v) s)"
    by (simp add: assignAll_def e)
  also have "\<dots> = fst ` set (setOwn d k v) \<union> fst ` set s" by (rule Cons.IH)
  also have "\<dots> = fst ` set d \<union> fst ` set (e # s)" by (simp add: keys_setOwn e)
  finally show ?case .
qed

lemma set_assignAll: "set (assignAll d s) \<subseteq> set d \<union> set s"
proof (induction s arbitrary: d)
  case Nil
  show ?case by (simp add: assignAll_def)
next
  case (Cons e s)
  obtain k v where e: "e = (k, v)" by (cases e)
  have "set (assignAll d (e # s)) = set (assignAll (setOwn d k v) s)"
    by (simp add: assignAll_def e)
  also have "\<dots> \<subseteq> set (setOwn d k v) \<union> set s" by (rule Cons.IH)
  also have "\<dots> \<subseteq> set d \<union> set (e # s)" using set_setOwn [of d k v] by (auto simp: e)
  finally show ?case .
qed

lemma distinct_assignAll: "distinct (map fst d) \<Longrightarrow> distinct (map fst (assignAll d s))"
proof (induction s arbitrary: d)
  case Nil
  then show ?case by (simp add: assignAll_def)
next
  case (Cons e s)
  obtain k v where e: "e = (k, v)" by (cases e)
  have "assignAll d (e # s) = assignAll (setOwn d k v) s"
    by (simp add: assignAll_def e)
  with Cons.IH [OF distinct_setOwn [OF Cons.prems]] show ?case by simp
qed

lemma getOwn_assignAll:
  "distinct (map fst s) \<Longrightarrow>
   getOwn (assignAll d s) k = (if k \<in> fst ` set s then getOwn s k else getOwn d k)"
proof (induction s arbitrary: d)
  case Nil
  show ?case by (simp add: assignAll_def)
next
  case (Cons e s)
  obtain k0 v0 where e: "e = (k0, v0)" by (cases e)
  from Cons.prems e have d: "distinct (map fst s)" and n: "k0 \<notin> fst ` set s" by auto
  have "getOwn (assignAll d (e # s)) k = getOwn (assignAll (setOwn d k0 v0) s) k"
    by (simp add: assignAll_def e)
  also have "\<dots> = (if k \<in> fst ` set s then getOwn s k else getOwn (setOwn d k0 v0) k)"
    by (rule Cons.IH [OF d])
  also have "\<dots> = (if k \<in> fst ` set (e # s) then getOwn (e # s) k else getOwn d k)"
    using n by (simp add: e getOwn_setOwn getOwn_Cons)
  finally show ?case .
qed

lemma getOwn_deleteOwn: "k \<noteq> k' \<Longrightarrow> getOwn (deleteOwn kvs k') k = getOwn kvs k"
  by (induction kvs) (auto simp: getOwn_def deleteOwn_def)

lemma getOwn_member:
  "distinct (map fst kvs) \<Longrightarrow> (k, v) \<in> set kvs \<Longrightarrow> getOwn kvs k = v"
  by (simp add: getOwn_def)

lemma getOwn_key: "k \<in> fst ` set kvs \<Longrightarrow> (k, getOwn kvs k) \<in> set kvs"
  by (induction kvs) (auto simp: getOwn_def)

lemma safeSetAllSpec_keeps:
  "\<exists>res. safeSetAllSpec (JObj kvs) dv = Inr (JObj res) \<and>
     (\<forall>k. getOwn kvs k \<noteq> JUndefined \<longrightarrow> getOwn res k = getOwn kvs k)"
proof (cases dv)
  case (JObj defaults)
  have "getOwn kvs k \<noteq> JUndefined \<Longrightarrow>
      getOwn (foldl (\<lambda>acc (k, v). if getOwn acc k = JUndefined then setOwn acc k v else acc)
                kvs defaults) k = getOwn kvs k" for k
  proof (induction defaults arbitrary: kvs)
    case Nil
    show ?case by simp
  next
    case (Cons e defaults)
    obtain k' v' where e: "e = (k', v')" by (cases e)
    let ?acc = "if getOwn kvs k' = JUndefined then setOwn kvs k' v' else kvs"
    from Cons.prems have same: "getOwn ?acc k = getOwn kvs k"
      by (auto simp: getOwn_setOwn)
    with Cons.prems have "getOwn ?acc k \<noteq> JUndefined" by simp
    from Cons.IH [OF this] same show ?case by (simp add: e)
  qed
  with JObj show ?thesis by simp
qed simp_all

text \<open>
  C1 (as amended). Let the child's \<open>extends\<close> be \<open>[a, b]\<close>, let the two references
  resolve to different identifiers and load as the objects \<open>A\<close> and \<open>B\<close>, and let
  all values but the child's \<open>extends\<close> be scalars, with no upgrade-merge key and no
  key \<open>__proto__\<close>. Then \<open>resolve\<close> builds an object, which it returns when
  post-validation accepts it, in which every key other than \<open>extends\<close> has the
  child's value when the child has the key, else \<open>B\<close>'s value when \<open>B\<close> has it, else
  \<open>A\<close>'s: among siblings the rightmost reference takes precedence.
\<close>

theorem extends_precedence:
  assumes dc: "distinct (map fst c)" and dB: "distinct (map fst B)"
    and ext: "getOwn c ''extends'' = JArr [JStr a, JStr b]"
    and cs: "\<forall>(k, v) \<in> set c. k \<noteq> ''extends'' \<longrightarrow> isScalar v"
    and sA: "scalarEntries A" and sB: "scalarEntries B"
    and ul: "upgradeMergeList r = []"
    and npc: "''__proto__'' \<notin> fst ` set c" and npA: "''__proto__'' \<notin> fst ` set A"
    and npB: "''__proto__'' \<notin> fst ` set B"
    and pre: "preValidateConfig E r (JObj c) = None"
    and saf: "safeSetAll E = safeSetAllSpec"
    and pa: "pa = resolveReference E (cwd E) (cwd E) a"
    and pb: "pb = resolveReference E (cwd E) (cwd E) b"
    and ne: "pa \<noteq> pb"
    and lb: "load fuel E r pb (cwd E) [pb] = Some ([pb], Inr (JObj B))"
    and la: "load fuel E r pa (cwd E) [pb, pa] = Some ([pb, pa], Inr (JObj A))"
  shows "\<exists>res. resolve fuel E r (JObj c) =
             (case postValidateConfig E r (JObj res) of
                None \<Rightarrow> Some (Inr (JObj res)) | Some e \<Rightarrow> Some (Inl e)) \<and>
           (\<forall>k. k \<noteq> ''extends'' \<longrightarrow>
              (let v = (if k \<in> fst ` set c then getOwn c k
                        else if k \<in> fst ` set B then getOwn B k else getOwn A k)
               in v \<noteq> JUndefined \<longrightarrow> getOwn res k = v))"
proof -
  let ?d1 = "assignAll B c"
  let ?d2 = "assignAll A ?d1"
  let ?d3 = "setOwn (deleteOwn ?d2 ''extends'') ''extends'' (JArr (map JStr [pb, pa]))"
  let ?val = "\<lambda>k. if k \<in> fst ` set c then getOwn c k
                   else if k \<in> fst ` set B then getOwn B k else getOwn A k"
  have plainB: "plainEntry e" if "e \<in> set B" for e
    using that sB by (auto simp: scalarEntries_def plainEntry_def list_all_iff)
  have plainc: "plainEntry e" if "e \<in> set c" for e
  proof (cases "fst e = ''extends''")
    case True
    with that have "(''extends'', snd e) \<in> set c" by (metis prod.collapse)
    from getOwn_member [OF dc this] ext have "snd e = JArr [JStr a, JStr b]" by simp
    with True show ?thesis by (simp add: plainEntry_def isPrim_def)
  next
    case False
    with that cs show ?thesis by (auto simp: plainEntry_def)
  qed
  have nc: "\<forall>e \<in> set c. fst e \<noteq> ''__proto__''" using npc by force
  have nA: "\<forall>e \<in> set A. fst e \<noteq> ''__proto__''" using npA by force
  have nB: "\<forall>e \<in> set B. fst e \<noteq> ''__proto__''" using npB by force
  have pc: "list_all plainEntry c" by (simp add: list_all_iff plainc)
  have m1: "deepMerge [] (JObj B) (JObj c) False None = Inr (JObj ?d1, JObj c)"
    by (rule deepMerge_plain [OF sB pc _ nc nB]) simp
  have "''__proto__'' \<notin> fst ` set ?d1"
    using npc npB by (simp add: keys_assignAll)
  then have n1: "\<forall>e \<in> set ?d1. fst e \<noteq> ''__proto__''" by force
  have "plainEntry e" if "e \<in> set ?d1" for e
  proof -
    from that set_assignAll [of B c] have "e \<in> set B \<or> e \<in> set c" by blast
    then show ?thesis using plainB [of e] plainc [of e] by blast
  qed
  then have p1: "list_all plainEntry ?d1" by (simp add: list_all_iff)
  have m2: "deepMerge [] (JObj A) (JObj ?d1) False None = Inr (JObj ?d2, JObj ?d1)"
    by (rule deepMerge_plain [OF sA p1 _ n1 nA]) simp
  have ae: "applyExtends fuel E r (JObj c) (cwd E) (cwd E) [] = Some ([pb, pa], Inr (JObj ?d2))"
    using ext lb la ne m1 m2
    by (simp add: applyExtends_def applyExtendsWith_def extendsStep_def Let_def ul
        pa [symmetric] pb [symmetric])
  have d1: "distinct (map fst ?d1)" by (rule distinct_assignAll [OF dB])
  have v2: "getOwn ?d2 k = ?val k" for k
    by (simp add: getOwn_assignAll [OF d1] getOwn_assignAll [OF dc] keys_assignAll)
  have na: "\<not> isArray (?val k)" if "k \<noteq> ''extends''" for k
  proof (cases "k \<in> fst ` set c")
    case True
    from getOwn_key [OF this] cs that have "isScalar (getOwn c k)" by auto
    with True show ?thesis by (simp add: isScalar_def)
  next
    case False
    then show ?thesis by (simp add: getOwn_scalar [OF sA] getOwn_scalar [OF sB])
  qed
  have v3: "getOwn ?d3 k = ?val k" if "k \<noteq> ''extends''" for k
    using that by (simp add: getOwn_setOwn getOwn_deleteOwn v2)
  have "\<not> isArray (getOwn ?d3 ''plugins'')"
    using na [of "''plugins''"] v3 [of "''plugins''"] by simp
  then have rp: "reversePlugins (JObj ?d3) = JObj ?d3"
    by (cases "getOwn ?d3 ''plugins''") simp_all
  have re: "resolveExtends fuel E r (JObj c) = Some (Inr (JObj ?d3))"
    using ae ext rp by (simp add: resolveExtends_def)
  from safeSetAllSpec_keeps [of ?d3 "defaultValues r"]
  obtain res where sd: "safeSetAllSpec (JObj ?d3) (defaultValues r) = Inr (JObj res)"
    and keep: "\<forall>k. getOwn ?d3 k \<noteq> JUndefined \<longrightarrow> getOwn res k = getOwn ?d3 k"
    by blast
  have sd': "\<exists>res'. setDefaultValues E r (JObj ?d3) = Inr (JObj res') \<and>
      (\<forall>k. getOwn ?d3 k \<noteq> JUndefined \<longrightarrow> getOwn res' k = getOwn ?d3 k)"
    using sd keep by (auto simp: setDefaultValues_def saf)
  then obtain res' where sr: "setDefaultValues E r (JObj ?d3) = Inr (JObj res')"
    and keep': "\<forall>k. getOwn ?d3 k \<noteq> JUndefined \<longrightarrow> getOwn res' k = getOwn ?d3 k"
    by blast
  have "resolve fuel E r (JObj c) =
      (case postValidateConfig E r (JObj res') of
         None \<Rightarrow> Some (Inr (JObj res')) | Some e \<Rightarrow> Some (Inl e))"
    using pre re sr by (simp add: resolve_def split: option.splits)
  moreover have "\<forall>k. k \<noteq> ''extends'' \<longrightarrow> (let v = ?val k in v \<noteq> JUndefined \<longrightarrow> getOwn res' k = v)"
    using keep' v3 by (simp add: Let_def)
  ultimately show ?thesis by blast
qed

theorem extends_precedence_witness:
  "\<exists>res. resolve 1 siblingEnv emptyResolver (JObj siblingChild) = Some (Inr (JObj res)) \<and>
     getOwn res ''all'' = JStr ''child'' \<and> getOwn res ''ab'' = JStr ''B'' \<and>
     getOwn res ''b'' = JStr ''B'' \<and> getOwn res ''a'' = JStr ''A''"
proof -
  have dc: "distinct (map fst siblingChild)" by (simp add: siblingChild_def)
  have dB: "distinct (map fst siblingB)" by (simp add: siblingB_def)
  have ext: "getOwn siblingChild ''extends'' = JArr [JStr ''./a.json'', JStr ''./b.json'']"
    by (simp add: siblingChild_def getOwn_def)
  have cs: "\<forall>(k, v) \<in> set siblingChild. k \<noteq> ''extends'' \<longrightarrow> isScalar v"
    by (simp add: siblingChild_def isScalar_def)
  have sA: "scalarEntries siblingA" by (simp add: siblingA_def scalarEntries_def isScalar_def)
  have sB: "scalarEntries siblingB" by (simp add: siblingB_def scalarEntries_def isScalar_def)
  have ul: "upgradeMergeList emptyResolver = []" by (simp add: emptyResolver_def)
  have pre: "preValidateConfig siblingEnv emptyResolver (JObj siblingChild) = None"
    by (simp add: preValidateConfig_def siblingEnv_def posixEnv_def)
  have post: "postValidateConfig siblingEnv emptyResolver v = None" for v
    by (simp add: postValidateConfig_def siblingEnv_def posixEnv_def)
  have npc: "''__proto__'' \<notin> fst ` set siblingChild" by (simp add: siblingChild_def)
  have npA: "''__proto__'' \<notin> fst ` set siblingA" by (simp add: siblingA_def)
  have npB: "''__proto__'' \<notin> fst ` set siblingB" by (simp add: siblingB_def)
  have saf: "safeSetAll siblingEnv = safeSetAllSpec" by (simp add: siblingEnv_def posixEnv_def)
  have pa: "''/cwd/a.json'' = resolveReference siblingEnv (cwd siblingEnv) (cwd siblingEnv) ''./a.json''"
    by code_simp
  have pb: "''/cwd/b.json'' = resolveReference siblingEnv (cwd siblingEnv) (cwd siblingEnv) ''./b.json''"
    by code_simp
  have ne: "''/cwd/a.json'' \<noteq> ''/cwd/b.json''" by simp
  have lb: "load 1 siblingEnv emptyResolver ''/cwd/b.json'' (cwd siblingEnv) [''/cwd/b.json'']
      = Some ([''/cwd/b.json''], Inr (JObj siblingB))"
    by code_simp
  have la: "load 1 siblingEnv emptyResolver ''/cwd/a.json'' (cwd siblingEnv)
        [''/cwd/b.json'', ''/cwd/a.json'']
      = Some ([''/cwd/b.json'', ''/cwd/a.json''], Inr (JObj siblingA))"
    by code_simp
  from extends_precedence [OF dc dB ext cs sA sB ul npc npA npB pre saf pa pb ne lb la]
  obtain res where r0: "resolve 1 siblingEnv emptyResolver (JObj siblingChild) =
        (case postValidateConfig siblingEnv emptyResolver (JObj res) of
           None \<Rightarrow> Some (Inr (JObj res)) | Some e \<Rightarrow> Some (Inl e))"
    and v: "\<forall>k. k \<noteq> ''extends'' \<longrightarrow>
              (let v = (if k \<in> fst ` set siblingChild then getOwn siblingChild k
                        else if k \<in> fst ` set siblingB then getOwn siblingB k
                        else getOwn siblingA k)
               in v \<noteq> JUndefined \<longrightarrow> getOwn res k = v)"
    by blast
  from r0 have r: "resolve 1 siblingEnv emptyResolver (JObj siblingChild) = Some (Inr (JObj res))"
    by (simp add: post)
  from v [rule_format, of "''all''"] have "getOwn res ''all'' = JStr ''child''"
    by (simp add: siblingChild_def getOwn_def)
  moreover from v [rule_format, of "''ab''"] have "getOwn res ''ab'' = JStr ''B''"
    by (simp add: siblingChild_def siblingB_def getOwn_def)
  moreover from v [rule_format, of "''b''"] have "getOwn res ''b'' = JStr ''B''"
    by (simp add: siblingChild_def siblingB_def getOwn_def)
  moreover from v [rule_format, of "''a''"] have "getOwn res ''a'' = JStr ''A''"
    by (simp add: siblingChild_def siblingB_def siblingA_def getOwn_def)
  ultimately show ?thesis using r by blast
qed

text \<open>
  C1 (as stated) fails: the key \<open>ab\<close>, which \<open>A\<close> and \<open>B\<close> have and the child has
  not, resolves to \<open>B\<close>'s value and not to \<open>A\<close>'s.
\<close>

theorem sibling_rightmost_wins:
  "Option.bind (resolve 1 siblingEnv emptyResolver (JObj siblingChild))
     (\<lambda>res. case res of Inl e \<Rightarrow> None | Inr v \<Rightarrow> Some (getProp v ''ab''))
     = Some (Inr (JStr ''B'')) \<and>
   getOwn siblingA ''ab'' = JStr ''A'' \<and> getOwn siblingB ''ab'' = JStr ''B'' \<and>
   getOwn siblingChild ''ab'' = JUndefined \<and> JStr ''B'' \<noteq> JStr ''A''"
  by code_simp

end
